theory Spec2Isabelle
  imports Main "HOL-Library.Char_ord" "HOL-Library.List_Lexorder"
begin

section \<open>Data model of \<^verbatim>\<open>src/util/diagnostic.py\<close>\<close>

text \<open>
  Python strings are modelled as \<^typ>\<open>string\<close>; Python compares strings by code
  point, lexicographically, a proper prefix being smaller, which is the order of
  \<^verbatim>\<open>Char_ord\<close> and \<^verbatim>\<open>List_Lexorder\<close>.

  Every \<^verbatim>\<open>raise\<close> of the source (and every exception of a built-in the source
  relies on) is a constructor of \<open>error\<close>; the comment gives the source line.
\<close>

datatype error =
    InvalidAttributeName string         \<comment> \<open>line 32, ValueError\<close>
  | InvalidAttributeType string         \<comment> \<open>line 38, ValueError\<close>
  | MissingRequiredField string         \<comment> \<open>line 199, ValueError\<close>
  | RequiredFieldTypeMismatch string    \<comment> \<open>line 210, ValueError\<close>
  | UnsupportedDomain string            \<comment> \<open>line 304, ValueError\<close>
  | InvalidPath                         \<comment> \<open>line 339, ValueError\<close>
  | SchemaColumnMismatch nat            \<comment> \<open>lines 353 and 363, ValueError\<close>
  | UnsupportedPhysicalType nat         \<comment> \<open>line 420, ValueError\<close>
  | PandasDatetimeError                 \<comment> \<open>line 415, what \<^verbatim>\<open>pd.to_datetime\<close> raises and line 417 does not catch\<close>
  | SchemaIndeterminate                 \<comment> \<open>line 432, NotImplementedError\<close>
  | AmbiguousColumnMapping string       \<comment> \<open>lines 439 and 456, ValueError\<close>
  | PyStopIteration                     \<comment> \<open>\<^verbatim>\<open>next\<close> on an exhausted iterator: lines 161, 313, 477\<close>
  | PyKeyError                          \<comment> \<open>\<^verbatim>\<open>DOMAINS[domain]\<close> or a column lookup with an unknown key\<close>
  | PyNameError                         \<comment> \<open>\<^verbatim>\<open>timestamp_field\<close> read at line 496 before any assignment\<close>
  | PyTypeError                         \<comment> \<open>ordering a str against NaN (lines 496-502), \<^verbatim>\<open>len(None)\<close> (line 534)\<close>
  | PandasValueError                    \<comment> \<open>\<^verbatim>\<open>read_csv\<close> with duplicate names, \<^verbatim>\<open>groupby\<close> with no keys\<close>

text \<open>
  A column label is a Python \<^verbatim>\<open>str\<close> (from a schema, a header or a domain template) or
  the \<^verbatim>\<open>int\<close> position pandas assigns when a file is read with \<^verbatim>\<open>header=None\<close> and no
  names.
\<close>

datatype colname = Ix nat | Name string

subsection \<open>\<^verbatim>\<open>class SchemaAttribute\<close> (lines 23-57)\<close>

record SchemaAttribute =
  AttributeName :: string
  AttributeType :: string

definition is_ascii_letter :: "char \<Rightarrow> bool" where
  "is_ascii_letter c =
     ((CHR ''a'' \<le> c \<and> c \<le> CHR ''z'') \<or> (CHR ''A'' \<le> c \<and> c \<le> CHR ''Z''))"

definition is_name_char :: "char \<Rightarrow> bool" where
  "is_name_char c =
     (is_ascii_letter c \<or> (CHR ''0'' \<le> c \<and> c \<le> CHR ''9'') \<or> c = CHR ''_'')"

text \<open>
  \<^verbatim>\<open>re.match(r"[a-zA-Z][a-zA-Z0-9_]*", name)\<close>: the pattern is tried at the start of the
  string only, and nothing anchors it at the end. The result is the matched text (the
  first letter and the longest run of name characters after it), or \<open>None\<close> when the
  string does not start with a letter.
\<close>

definition re_match_name :: "string \<Rightarrow> string option" where
  "re_match_name s =
     (case s of
        [] \<Rightarrow> None
      | c # cs \<Rightarrow> if is_ascii_letter c then Some (c # takeWhile is_name_char cs) else None)"

text \<open>\<^verbatim>\<open>bool(m)\<close> of a match object is \<^verbatim>\<open>True\<close>, of \<^verbatim>\<open>None\<close> it is \<^verbatim>\<open>False\<close>.\<close>

definition is_valid_name :: "string \<Rightarrow> bool" where
  "is_valid_name name = (case re_match_name name of None \<Rightarrow> False | Some m \<Rightarrow> True)"

definition is_valid_type :: "string \<Rightarrow> bool" where
  "is_valid_type typename =
     (typename \<in> set [''string'', ''integer'', ''float'', ''timestamp''])"

definition SchemaAttribute_init :: "string \<Rightarrow> string \<Rightarrow> error + SchemaAttribute" where
  "SchemaAttribute_init name typ =
     (if is_valid_name name then
        (if is_valid_type typ then Inr \<lparr>AttributeName = name, AttributeType = typ\<rparr>
         else Inl (InvalidAttributeType typ))
      else Inl (InvalidAttributeName name))"

text \<open>
  The identifier shape the specification words: the whole of the name is a letter
  followed by letters, digits and underscores.
\<close>

definition spec_identifier :: "string \<Rightarrow> bool" where
  "spec_identifier name =
     (case name of [] \<Rightarrow> False | c # cs \<Rightarrow> is_ascii_letter c \<and> list_all is_name_char cs)"

subsection \<open>\<^verbatim>\<open>DOMAINS\<close> (lines 60-146)\<close>

record tts_template =
  required_fields :: "(string \<times> SchemaAttribute) list"
  optional_fields :: "(string \<times> SchemaAttribute) list"

record domain_template =
  target_field :: string
  tts :: tts_template

text \<open>
  A Python dict keeps insertion order, so each dict is an association list. Every
  \<^verbatim>\<open>SchemaAttribute(...)\<close> call of the table passes the checks of the constructor
  (lemma \<open>DOMAINS_attributes_constructed\<close> below), so the table holds the constructed
  objects.
\<close>

definition attribute :: "string \<Rightarrow> string \<Rightarrow> SchemaAttribute" where
  "attribute name typ = \<lparr>AttributeName = name, AttributeType = typ\<rparr>"

definition DOMAINS :: "(string \<times> domain_template) list" where
  "DOMAINS =
   [(''RETAIL'', \<lparr>target_field = ''demand'', tts = \<lparr>
        required_fields =
          [(''item_id'', attribute ''item_id'' ''string''),
           (''timestamp'', attribute ''timestamp'' ''timestamp''),
           (''demand'', attribute ''demand'' ''float'')],
        optional_fields = [(''location'', attribute ''location'' ''string'')]\<rparr>\<rparr>),
    (''CUSTOM'', \<lparr>target_field = ''target_value'', tts = \<lparr>
        required_fields =
          [(''item_id'', attribute ''item_id'' ''string''),
           (''timestamp'', attribute ''timestamp'' ''timestamp''),
           (''target_value'', attribute ''target_value'' ''float'')],
        optional_fields = []\<rparr>\<rparr>),
    (''INVENTORY_PLANNING'', \<lparr>target_field = ''demand'', tts = \<lparr>
        required_fields =
          [(''item_id'', attribute ''item_id'' ''string''),
           (''timestamp'', attribute ''timestamp'' ''timestamp''),
           (''demand'', attribute ''demand'' ''float'')],
        optional_fields = [(''location'', attribute ''location'' ''string'')]\<rparr>\<rparr>),
    (''EC2 CAPACITY'', \<lparr>target_field = ''number_of_instances'', tts = \<lparr>
        required_fields =
          [(''instance_type'', attribute ''instance_type'' ''string''),
           (''timestamp'', attribute ''timestamp'' ''timestamp''),
           (''number_of_instances'', attribute ''number_of_instances'' ''integer'')],
        optional_fields = [(''location'', attribute ''location'' ''string'')]\<rparr>\<rparr>),
    (''WORK_FORCE'', \<lparr>target_field = ''workforce_demand'', tts = \<lparr>
        required_fields =
          [(''workforce_type'', attribute ''workforce_type'' ''string''),
           (''timestamp'', attribute ''timestamp'' ''timestamp''),
           (''workforce_demand'', attribute ''workforce_demand'' ''float'')],
        optional_fields = [(''location'', attribute ''location'' ''string'')]\<rparr>\<rparr>),
    (''WEB_TRAFFIC'', \<lparr>target_field = ''value'', tts = \<lparr>
        required_fields =
          [(''item_id'', attribute ''item_id'' ''string''),
           (''timestamp'', attribute ''timestamp'' ''timestamp''),
           (''value'', attribute ''demand'' ''float'')],
        optional_fields = []\<rparr>\<rparr>),
    (''METRICS'', \<lparr>target_field = ''metric_value'', tts = \<lparr>
        required_fields =
          [(''metric_name'', attribute ''metric_name'' ''string''),
           (''timestamp'', attribute ''timestamp'' ''timestamp''),
           (''metric_value'', attribute ''metric_value'' ''float'')],
        optional_fields = []\<rparr>\<rparr>)]"

subsection \<open>\<^verbatim>\<open>sniff_csv_file\<close> (lines 149-168)\<close>

text \<open>
  The file is given as the rows \<^verbatim>\<open>csv.reader\<close> yields, each a list of cells.
  \<^verbatim>\<open>next(reader)\<close> on a file with no row raises \<^verbatim>\<open>StopIteration\<close>.
\<close>

definition sniff_csv_file :: "string list list \<Rightarrow> error + (string list option \<times> nat)" where
  "sniff_csv_file reader =
     (case reader of
        [] \<Rightarrow> Inl PyStopIteration
      | row1 # _ \<Rightarrow>
          (let ncols = length row1 in
           if \<not> list_all is_valid_type row1 then Inr (None, ncols)
           else Inr (Some row1, ncols)))"

subsection \<open>\<^verbatim>\<open>validate_tts_schema_on_domain\<close> (lines 171-256)\<close>

text \<open>
  \<^verbatim>\<open>tts_schema["Attributes"]\<close> is a list of plain dicts with the keys
  \<^verbatim>\<open>"AttributeName"\<close> and \<^verbatim>\<open>"AttributeType"\<close>; they are not \<^verbatim>\<open>SchemaAttribute\<close>
  objects, and an inferred schema can hold pandas' integer labels as names.
\<close>

record attr =
  attr_name :: colname
  attr_type :: string

type_synonym tts_schema = "attr list"

text \<open>
  The loop of lines 196-220 over the required fields, in the order of the dict: the
  first field with no same-named attribute, or whose first same-named attribute has
  another type, raises.
\<close>

fun check_required_fields :: "tts_schema \<Rightarrow> (string \<times> SchemaAttribute) list \<Rightarrow> error option" where
  "check_required_fields attrs [] = None"
| "check_required_fields attrs ((fname, spec) # rest) =
     (case filter (\<lambda>f. attr_name f = Name fname) attrs of
        [] \<Rightarrow> Some (MissingRequiredField fname)
      | m # _ \<Rightarrow>
          if attr_type m \<noteq> AttributeType spec then Some (RequiredFieldTypeMismatch fname)
          else check_required_fields attrs rest)"

text \<open>
  The loop of lines 221-243 over the optional fields: the pair of
  \<^verbatim>\<open>optional_fields_used\<close> and the names the \<^verbatim>\<open>WARNING\<close> lines are printed for.
\<close>

fun scan_optional_fields ::
  "tts_schema \<Rightarrow> (string \<times> SchemaAttribute) list \<Rightarrow> string list \<times> string list" where
  "scan_optional_fields attrs [] = ([], [])"
| "scan_optional_fields attrs ((fname, spec) # rest) =
     (let (used, warned) = scan_optional_fields attrs rest in
      case find (\<lambda>f. attr_name f = Name fname) attrs of
        None \<Rightarrow> (used, warned)
      | Some matching_field \<Rightarrow>
          if attr_type matching_field = AttributeType spec then (fname # used, warned)
          else (used, fname # warned))"

record validated =
  required_fnames :: "string list"
  optional_fields_used :: "string list"
  custom_fnames :: "colname list"
  warnings :: "string list"

definition validate_tts_schema_on_domain :: "tts_schema \<Rightarrow> string \<Rightarrow> error + validated" where
  "validate_tts_schema_on_domain attrs domain =
     (case map_of DOMAINS domain of
        None \<Rightarrow> Inl PyKeyError
      | Some d \<Rightarrow>
          (case check_required_fields attrs (required_fields (tts d)) of
             Some e \<Rightarrow> Inl e
           | None \<Rightarrow>
               (let (used, warned) = scan_optional_fields attrs (optional_fields (tts d));
                    schema_fnames = map attr_name attrs;
                    required = map fst (required_fields (tts d));
                    custom = filter (\<lambda>f. f \<notin> set (map Name (used @ required)))
                               schema_fnames
                in Inr \<lparr>required_fnames = required, optional_fields_used = used,
                        custom_fnames = custom, warnings = warned\<rparr>)))"

subsection \<open>Frames, chunks and Series\<close>

text \<open>
  What pandas does with a file is taken as given: a cell of a parsed row is a value or
  missing (\<open>None\<close> stands for NaN), values are kept as the text of the cell, and a file
  comes with the rows \<^verbatim>\<open>read_csv\<close> yields for it in this run. Rows are padded with NaN
  to the number of columns, as \<^verbatim>\<open>read_csv\<close> pads short lines.
\<close>

type_synonym cell = "string option"
type_synonym row = "cell list"

datatype date_probe = Converts | RaisesParserError | RaisesOther

datatype dtype = Int64 | Float64 | Object date_probe | OtherDtype

text \<open>
  \<open>Object p\<close> is a column of strings; \<open>p\<close> is what
  \<^verbatim>\<open>pd.to_datetime(tts_chunk[col][0:5], infer_datetime_format=True)\<close> does on it: it
  returns, it raises one of the two \<^verbatim>\<open>ParserError\<close> classes that line 417 catches, or it
  raises something else, which nothing catches. Which of the three a given text leads
  to is up to pandas and is taken as given. \<open>OtherDtype\<close> is any dtype that is neither
  integer, float nor string (a column of booleans, for one).
\<close>

record csv_file =
  csv_rows :: "string list list"
  frame_columns :: "(colname \<times> dtype) list"
  frame_rows :: "row list"

text \<open>
  \<open>csv_rows\<close> is what \<^verbatim>\<open>csv.reader\<close> yields (only its first row is read),
  \<open>frame_columns\<close> the labels and dtypes of the first chunk when the file is read
  with neither names nor dtypes, \<open>frame_rows\<close> the parsed data rows.

  \<^verbatim>\<open>read_csv(..., chunksize=CHUNKSIZE)\<close> yields the rows in batches of \<^verbatim>\<open>CHUNKSIZE\<close>,
  the last one shorter; a file with no data row yields one empty chunk. The chunk size
  is a parameter below so that two chunk sizes can be compared; only positive sizes
  mean anything (pandas refuses the others), and \<open>chunks_of 0\<close> is the empty list only
  to make the function total.
\<close>

definition CHUNKSIZE :: nat where
  "CHUNKSIZE = 10000"

function chunks_of :: "nat \<Rightarrow> 'a list \<Rightarrow> 'a list list" where
  "chunks_of n [] = []"
| "chunks_of n (x # xs) =
     (if n = 0 then [] else take n (x # xs) # chunks_of n (drop n (x # xs)))"
  by pat_completeness auto
termination
  by (relation "measure (\<lambda>(n, xs). length xs)") auto

definition tts_chunker :: "nat \<Rightarrow> row list \<Rightarrow> row list list" where
  "tts_chunker chunksize rows = (case rows of [] \<Rightarrow> [[]] | _ # _ \<Rightarrow> chunks_of chunksize rows)"

definition cell_at :: "row \<Rightarrow> nat \<Rightarrow> cell" where
  "cell_at r i = (if i < length r then r ! i else None)"

fun col_index :: "colname list \<Rightarrow> colname \<Rightarrow> nat option" where
  "col_index [] f = None"
| "col_index (n # ns) f = (if n = f then Some 0 else map_option Suc (col_index ns f))"

definition and_then :: "error + 'a \<Rightarrow> ('a \<Rightarrow> error + 'b) \<Rightarrow> error + 'b" where
  "and_then r f = (case r of Inl e \<Rightarrow> Inl e | Inr x \<Rightarrow> f x)"

text \<open>\<^verbatim>\<open>tts_chunk[fname]\<close>: the column of that label, \<^verbatim>\<open>KeyError\<close> when there is none.\<close>

definition column :: "colname list \<Rightarrow> colname \<Rightarrow> row list \<Rightarrow> error + cell list" where
  "column names fname tts_chunk =
     (case col_index names fname of
        None \<Rightarrow> Inl PyKeyError
      | Some i \<Rightarrow> Inr (map (\<lambda>r. cell_at r i) tts_chunk))"

text \<open>
  A Series of counts is an association list from labels to values; a value is a count
  or NaN (\<open>None\<close>). Entries are listed in the order of first occurrence; the order
  pandas gives them (by count for \<^verbatim>\<open>value_counts\<close>, by key for \<^verbatim>\<open>groupby\<close>) is not
  modelled, and nothing below depends on it.
\<close>

type_synonym 'k series = "('k \<times> nat option) list"

definition first_seen :: "'a list \<Rightarrow> 'a list" where
  "first_seen xs = rev (remdups (rev xs))"

definition value_counts :: "'k list \<Rightarrow> 'k series" where
  "value_counts xs = map (\<lambda>k. (k, Some (count_list xs k))) (first_seen xs)"

text \<open>
  \<^verbatim>\<open>self += other\<close> on two Series (lines 514 and 521). pandas aligns the operands on
  their labels: a label that one operand lacks gets NaN, and NaN plus anything is NaN.
  The in-place form then reindexes the result like \<^verbatim>\<open>self\<close>, so the labels of the
  result are those of \<^verbatim>\<open>self\<close>.
\<close>

definition series_iadd :: "'k series \<Rightarrow> 'k series \<Rightarrow> 'k series" where
  "series_iadd self other =
     map (\<lambda>(k, v). (k, case v of
                          None \<Rightarrow> None
                        | Some a \<Rightarrow> (case map_of other k of
                                      None \<Rightarrow> None
                                    | Some None \<Rightarrow> None
                                    | Some (Some b) \<Rightarrow> Some (a + b)))) self"

text \<open>\<^verbatim>\<open>Series.sum()\<close> (line 261) skips NaN.\<close>

definition series_sum :: "'k series \<Rightarrow> nat" where
  "series_sum s = sum_list (map (\<lambda>(k, v). case v of None \<Rightarrow> 0 | Some n \<Rightarrow> n) s)"

text \<open>
  \<^verbatim>\<open>Series.min()\<close> and \<^verbatim>\<open>Series.max()\<close> of the timestamp column (lines 496-497), a column
  of strings: NaN when the column holds no value (it is empty, or all of it is missing),
  the least (greatest) string when no value is missing. A column that mixes strings and
  NaN makes pandas order a str against a float, which raises \<^verbatim>\<open>TypeError\<close>.
\<close>

definition series_min :: "cell list \<Rightarrow> error + cell" where
  "series_min col =
     (case List.map_filter (\<lambda>c. c) col of
        [] \<Rightarrow> Inr None
      | t # ts \<Rightarrow> if None \<in> set col then Inl PyTypeError else Inr (Some (fold min ts t)))"

definition series_max :: "cell list \<Rightarrow> error + cell" where
  "series_max col =
     (case List.map_filter (\<lambda>c. c) col of
        [] \<Rightarrow> Inr None
      | t # ts \<Rightarrow> if None \<in> set col then Inl PyTypeError else Inr (Some (fold max ts t)))"

text \<open>
  Python's \<^verbatim>\<open>min((a, b))\<close> and \<^verbatim>\<open>max((a, b))\<close> (lines 498-503): \<^verbatim>\<open>b\<close> when \<^verbatim>\<open>b < a\<close>
  (\<^verbatim>\<open>b > a\<close>), else \<^verbatim>\<open>a\<close>. NaN against NaN compares false; a str against NaN raises.
\<close>

definition py_min :: "cell \<Rightarrow> cell \<Rightarrow> error + cell" where
  "py_min a b =
     (case a of
        None \<Rightarrow> (case b of None \<Rightarrow> Inr None | Some y \<Rightarrow> Inl PyTypeError)
      | Some x \<Rightarrow> (case b of None \<Rightarrow> Inl PyTypeError
                   | Some y \<Rightarrow> Inr (Some (if y < x then y else x))))"

definition py_max :: "cell \<Rightarrow> cell \<Rightarrow> error + cell" where
  "py_max a b =
     (case a of
        None \<Rightarrow> (case b of None \<Rightarrow> Inr None | Some y \<Rightarrow> Inl PyTypeError)
      | Some x \<Rightarrow> (case b of None \<Rightarrow> Inl PyTypeError
                   | Some y \<Rightarrow> Inr (Some (if x < y then y else x))))"

subsection \<open>The statistics of one file (lines 389-396 and 495-521)\<close>

record roles =
  timestamp_field :: colname
  target_column :: colname
  dimension_fields :: "colname list"

record stats =
  global_tts_start :: "cell option"
  global_tts_end :: "cell option"
  total_records :: nat
  total_records_nonulls :: nat
  num_nulls_by_field :: "nat list option"
  unique_dimension_vals :: "(colname \<times> cell series) list"
  unique_dimension_combos :: "string list series option"

text \<open>Lines 390-396: the tracking variables, as assigned inside the loop over the files.\<close>

definition initial_stats :: stats where
  "initial_stats =
     \<lparr>global_tts_start = None, global_tts_end = None, total_records = 0,
      total_records_nonulls = 0, num_nulls_by_field = None,
      unique_dimension_vals = [], unique_dimension_combos = None\<rparr>"

text \<open>\<^verbatim>\<open>tts_chunk.isnull().any(axis=1)\<close> and \<^verbatim>\<open>tts_chunk.isna().sum()\<close>.\<close>

definition row_has_null :: "nat \<Rightarrow> row \<Rightarrow> bool" where
  "row_has_null ncols r = list_ex (\<lambda>i. cell_at r i = None) [0..<ncols]"

definition nulls_by_field :: "nat \<Rightarrow> row list \<Rightarrow> nat list" where
  "nulls_by_field ncols tts_chunk =
     map (\<lambda>i. length (filter (\<lambda>r. cell_at r i = None) tts_chunk)) [0..<ncols]"

text \<open>
  Lines 511-516. \<^verbatim>\<open>value_counts(dropna=False)\<close> counts NaN as a value of its own.
\<close>

fun dict_set :: "('k \<times> 'v) list \<Rightarrow> 'k \<Rightarrow> 'v \<Rightarrow> ('k \<times> 'v) list" where
  "dict_set [] k v = [(k, v)]"
| "dict_set ((k', v') # kvs) k v =
     (if k' = k then (k, v) # kvs else (k', v') # dict_set kvs k v)"

fun update_dimension_vals ::
  "colname list \<Rightarrow> row list \<Rightarrow> colname list \<Rightarrow> (colname \<times> cell series) list
     \<Rightarrow> error + (colname \<times> cell series) list" where
  "update_dimension_vals names tts_chunk [] vals = Inr vals"
| "update_dimension_vals names tts_chunk (fname # rest) vals =
     and_then (column names fname tts_chunk) (\<lambda>col.
       let chunk_unique_vals = value_counts col in
       update_dimension_vals names tts_chunk rest
         (case map_of vals fname of
            Some s \<Rightarrow> dict_set vals fname (series_iadd s chunk_unique_vals)
          | None \<Rightarrow> dict_set vals fname chunk_unique_vals))"

text \<open>
  Line 517, \<^verbatim>\<open>tts_chunk.groupby(dimension_fields).size()\<close>: pandas raises
  \<^verbatim>\<open>ValueError\<close> for an empty list of keys, and leaves out every row with NaN in one of
  the key columns.
\<close>

definition dimension_key :: "nat list \<Rightarrow> row \<Rightarrow> string list option" where
  "dimension_key idxs r = those (map (cell_at r) idxs)"

definition groupby_size :: "colname list \<Rightarrow> colname list \<Rightarrow> row list \<Rightarrow> error + string list series" where
  "groupby_size names dims tts_chunk =
     (case dims of
        [] \<Rightarrow> Inl PandasValueError
      | _ # _ \<Rightarrow>
          (case those (map (col_index names) dims) of
             None \<Rightarrow> Inl PyKeyError
           | Some idxs \<Rightarrow> Inr (value_counts (List.map_filter (dimension_key idxs) tts_chunk))))"

definition update_statistics :: "roles \<Rightarrow> colname list \<Rightarrow> stats \<Rightarrow> row list \<Rightarrow> error + stats" where
  "update_statistics r names st tts_chunk =
     and_then (column names (timestamp_field r) tts_chunk) (\<lambda>ts_col.
     and_then (series_min ts_col) (\<lambda>chunk_min_ts.
     and_then (series_max ts_col) (\<lambda>chunk_max_ts.
     and_then (case global_tts_start st of
                 None \<Rightarrow> Inr chunk_min_ts
               | Some g \<Rightarrow> py_min g chunk_min_ts) (\<lambda>tts_start.
     and_then (case global_tts_end st of
                 None \<Rightarrow> Inr chunk_max_ts
               | Some g \<Rightarrow> py_max g chunk_max_ts) (\<lambda>tts_end.
     let ncols = length names;
         chunk_nulls_by_field = nulls_by_field ncols tts_chunk;
         nulls = (case num_nulls_by_field st of
                    None \<Rightarrow> chunk_nulls_by_field
                  | Some ns \<Rightarrow> map (\<lambda>(a, b). a + b) (zip ns chunk_nulls_by_field))
     in
     and_then (update_dimension_vals names tts_chunk (dimension_fields r)
                 (unique_dimension_vals st)) (\<lambda>vals.
     and_then (groupby_size names (dimension_fields r) tts_chunk) (\<lambda>chunk_dimension_combos.
       Inr \<lparr>global_tts_start = Some tts_start,
            global_tts_end = Some tts_end,
            total_records = total_records st + length tts_chunk,
            total_records_nonulls = total_records_nonulls st
              + (length tts_chunk - length (filter (row_has_null ncols) tts_chunk)),
            num_nulls_by_field = Some nulls,
            unique_dimension_vals = vals,
            unique_dimension_combos =
              (case unique_dimension_combos st of
                 None \<Rightarrow> Some chunk_dimension_combos
               | Some combos \<Rightarrow> Some (series_iadd combos chunk_dimension_combos))\<rparr>)))))))"

subsection \<open>Schema inference on the first chunk (lines 401-489)\<close>

text \<open>
  Lines 408-422: the schema type of the column at position \<open>ixcol\<close>, the exception of
  \<^verbatim>\<open>pd.to_datetime\<close> that line 417 lets through, or the \<^verbatim>\<open>ValueError\<close> of line 420.
\<close>

definition schematype_of :: "nat \<Rightarrow> dtype \<Rightarrow> error + string" where
  "schematype_of ixcol d =
     (case d of
        Int64 \<Rightarrow> Inr ''integer''
      | Float64 \<Rightarrow> Inr ''float''
      | Object probe \<Rightarrow>
          (case probe of
             Converts \<Rightarrow> Inr ''timestamp''
           | RaisesParserError \<Rightarrow> Inr ''string''
           | RaisesOther \<Rightarrow> Inl PandasDatetimeError)
      | OtherDtype \<Rightarrow> Inl (UnsupportedPhysicalType ixcol))"

fun infer_attributes :: "nat \<Rightarrow> (colname \<times> dtype) list \<Rightarrow> error + tts_schema" where
  "infer_attributes ixcol [] = Inr []"
| "infer_attributes ixcol ((col, d) # cols) =
     and_then (schematype_of ixcol d) (\<lambda>schematype.
     and_then (infer_attributes (Suc ixcol) cols) (\<lambda>attrs.
       Inr (\<lparr>attr_name = col, attr_type = schematype\<rparr> # attrs)))"

text \<open>
  \<^verbatim>\<open>field_counts_by_type\<close>: a \<^verbatim>\<open>defaultdict(int)\<close>, iterated in the order the types were
  first seen.
\<close>

definition field_counts_by_type :: "tts_schema \<Rightarrow> (string \<times> nat) list" where
  "field_counts_by_type attrs =
     map (\<lambda>t. (t, count_list (map attr_type attrs) t)) (first_seen (map attr_type attrs))"

text \<open>
  Lines 447-449 and 466-470: \<^verbatim>\<open>attribute\<close> is the first attribute of the schema type, and
  its name is overwritten.
\<close>

fun rename_first :: "string \<Rightarrow> colname \<Rightarrow> tts_schema \<Rightarrow> tts_schema" where
  "rename_first schematype new [] = []"
| "rename_first schematype new (a # attrs) =
     (if attr_type a = schematype then a\<lparr>attr_name := new\<rparr> # attrs
      else a # rename_first schematype new attrs)"

definition matching_fields :: "(string \<times> SchemaAttribute) list \<Rightarrow> string \<Rightarrow> string list" where
  "matching_fields template schematype =
     map fst (filter (\<lambda>(f, spec). AttributeType spec = schematype) template)"

text \<open>
  The loop of lines 437-470 over the schema types of the chunk. A type with no required
  candidate and not exactly one optional candidate falls through both branches of line
  465-470: its column keeps its label and the loop goes on.
\<close>

fun infer_names :: "domain_template \<Rightarrow> (string \<times> nat) list \<Rightarrow> tts_schema \<Rightarrow> error + tts_schema" where
  "infer_names d [] attrs = Inr attrs"
| "infer_names d ((schematype, n) # rest) attrs =
     (if n > 1 then Inl (AmbiguousColumnMapping schematype)
      else
        (let matching_required_fields = matching_fields (required_fields (tts d)) schematype;
             n_matching_required = length matching_required_fields;
             matching_optional_fields = matching_fields (optional_fields (tts d)) schematype;
             n_matching_optional = length matching_optional_fields
         in
         if n_matching_required > 1 then Inl (AmbiguousColumnMapping schematype)
         else if n_matching_required = 1 then
           infer_names d rest (rename_first schematype (Name (hd matching_required_fields)) attrs)
         else if n_matching_required = 0 \<and> n_matching_optional = 1 then
           infer_names d rest (rename_first schematype (Name (hd matching_optional_fields)) attrs)
         else infer_names d rest attrs))"

text \<open>
  Lines 403-470. \<^verbatim>\<open>diagnose\<close> has checked an explicit domain against the table at
  line 303, so \<^verbatim>\<open>DOMAINS[domain]\<close> finds the template whenever this code is reached.
\<close>

definition infer_schema ::
  "string option \<Rightarrow> string list option \<Rightarrow> (colname \<times> dtype) list \<Rightarrow> error + tts_schema" where
  "infer_schema domain header_columns cols =
     and_then (infer_attributes 0 cols) (\<lambda>attrs.
       case header_columns of
         Some h \<Rightarrow> Inr attrs
       | None \<Rightarrow>
           (case domain of
              None \<Rightarrow> Inl SchemaIndeterminate
            | Some dname \<Rightarrow>
                (case map_of DOMAINS dname of
                   None \<Rightarrow> Inl PyKeyError
                 | Some d \<Rightarrow> infer_names d (field_counts_by_type attrs) attrs)))"

subsection \<open>\<^verbatim>\<open>diagnose\<close> (lines 272-536)\<close>

text \<open>
  Lines 308-324 and 472-489: validation against the domain, then the timestamp field,
  the target field and the dimension fields. \<^verbatim>\<open>validate_tts_schema_on_domain\<close> called
  with \<^verbatim>\<open>domain=None\<close> raises \<^verbatim>\<open>KeyError\<close> at \<^verbatim>\<open>DOMAINS[None]\<close>.
\<close>

definition resolve_roles :: "tts_schema \<Rightarrow> string option \<Rightarrow> error + roles" where
  "resolve_roles attrs domain =
     (case domain of
        None \<Rightarrow> Inl PyKeyError
      | Some dname \<Rightarrow>
          and_then (validate_tts_schema_on_domain attrs dname) (\<lambda>v.
            case find (\<lambda>f. attr_name f \<in> set (map Name (required_fnames v))
                            \<and> attr_type f = ''timestamp'') attrs of
              None \<Rightarrow> Inl PyStopIteration
            | Some f \<Rightarrow>
                (case map_of DOMAINS dname of
                   None \<Rightarrow> Inl PyKeyError
                 | Some d \<Rightarrow>
                     (let timestamp_field = attr_name f;
                          target_field = Name (target_field d)
                      in Inr \<lparr>timestamp_field = timestamp_field,
                              target_column = target_field,
                              dimension_fields =
                                filter (\<lambda>n. n \<notin> set [timestamp_field, target_field])
                                  (map attr_name attrs)\<rparr>))))"

text \<open>
  Lines 326-343. A directory is given by the files \<^verbatim>\<open>os.walk\<close> finds under it (joined
  paths, with their contents); \<^verbatim>\<open>str.lower\<close> matters on ASCII letters only here.
\<close>

datatype path_entry = Absent | RegularFile csv_file | Directory "(string \<times> csv_file) list"

definition lower_char :: "char \<Rightarrow> char" where
  "lower_char c =
     (if CHR ''A'' \<le> c \<and> c \<le> CHR ''Z'' then char_of (of_char c + (32::nat)) else c)"

definition endswith :: "string \<Rightarrow> string \<Rightarrow> bool" where
  "endswith s suffix_text =
     (length suffix_text \<le> length s \<and> drop (length s - length suffix_text) s = suffix_text)"

definition is_csv_filename :: "string \<Rightarrow> bool" where
  "is_csv_filename f = endswith (map lower_char f) ''.csv''"

definition resolve_tts_filenames :: "string \<Rightarrow> path_entry \<Rightarrow> error + (string \<times> csv_file) list" where
  "resolve_tts_filenames tts_path entry =
     (case entry of
        Directory found \<Rightarrow>
          (let tts_filenames = sort_key fst found;
               filtered_filenames = sort_key fst (filter (\<lambda>(f, c). is_csv_filename f) tts_filenames);
               n_raw = length tts_filenames;
               n_filtered = length filtered_filenames
           in if n_filtered > 0 \<and> n_filtered < n_raw then Inr filtered_filenames
              else Inr tts_filenames)
      | RegularFile content \<Rightarrow> Inr [(tts_path, content)]
      | Absent \<Rightarrow> Inl InvalidPath)"

text \<open>
  Lines 351-371. The header check runs after the length check, so the header and the
  attributes have the same length and \<^verbatim>\<open>tts_schema["Attributes"][ixcol]\<close> is in range.
\<close>

definition check_columns :: "tts_schema \<Rightarrow> string list option \<Rightarrow> nat \<Rightarrow> error + unit" where
  "check_columns attrs header_columns ncols =
     (if length attrs \<noteq> ncols then Inl (SchemaColumnMismatch ncols)
      else
        (case header_columns of
           None \<Rightarrow> Inr ()
         | Some hs \<Rightarrow>
             (case find (\<lambda>((ixcol, header), a). Name header \<noteq> attr_name a)
                     (zip (enumerate 0 hs) attrs) of
                Some ((ixcol, header), a) \<Rightarrow> Inl (SchemaColumnMismatch ixcol)
              | None \<Rightarrow> Inr ())))"

text \<open>
  Lines 399-521, one turn of the loop over the chunks. The loop carries the schema (the
  first chunk of the run infers it when none was given), the roles of the fields and
  the statistics. After line 493 the labels of the chunk are the names of the schema.
\<close>

type_synonym loop_state = "tts_schema option \<times> roles option \<times> stats"

definition process_chunk ::
  "string option \<Rightarrow> string list option \<Rightarrow> csv_file \<Rightarrow> loop_state \<Rightarrow> row list \<Rightarrow> error + loop_state" where
  "process_chunk domain header_columns file state tts_chunk =
     (case state of (tts_schema, field_roles, st) \<Rightarrow>
        and_then
          (case tts_schema of
             Some attrs \<Rightarrow> Inr (attrs, field_roles)
           | None \<Rightarrow>
               and_then (infer_schema domain header_columns (frame_columns file)) (\<lambda>attrs.
               and_then (resolve_roles attrs domain) (\<lambda>r. Inr (attrs, Some r))))
          (\<lambda>(attrs, field_roles').
             case field_roles' of
               None \<Rightarrow> Inl PyNameError
             | Some r \<Rightarrow>
                 and_then (update_statistics r (map attr_name attrs) st tts_chunk) (\<lambda>st'.
                   Inr (Some attrs, field_roles', st'))))"

fun process_chunks ::
  "string option \<Rightarrow> string list option \<Rightarrow> csv_file \<Rightarrow> loop_state \<Rightarrow> row list list \<Rightarrow> error + loop_state" where
  "process_chunks domain header_columns file state [] = Inr state"
| "process_chunks domain header_columns file state (tts_chunk # chunks) =
     and_then (process_chunk domain header_columns file state tts_chunk) (\<lambda>state'.
       process_chunks domain header_columns file state' chunks)"

text \<open>
  Lines 346-536, one turn of the loop over the files: sniffing, the column checks,
  \<^verbatim>\<open>read_csv\<close> (which refuses duplicate names), the tracking variables set to their
  initial values, the loop over the chunks, and the report, which is the final value of
  the tracking variables.
\<close>

definition process_file ::
  "nat \<Rightarrow> string option \<Rightarrow> tts_schema option \<times> roles option \<Rightarrow> csv_file
     \<Rightarrow> error + ((tts_schema option \<times> roles option) \<times> stats)" where
  "process_file chunksize domain carried file =
     (case carried of (tts_schema, field_roles) \<Rightarrow>
        and_then (sniff_csv_file (csv_rows file)) (\<lambda>(header_columns, ncols).
        and_then (case tts_schema of
                    None \<Rightarrow> Inr ()
                  | Some attrs \<Rightarrow>
                      and_then (check_columns attrs header_columns ncols) (\<lambda>u.
                        if distinct (map attr_name attrs) then Inr ()
                        else Inl PandasValueError)) (\<lambda>u.
        and_then (process_chunks domain header_columns file (tts_schema, field_roles, initial_stats)
                    (tts_chunker chunksize (frame_rows file))) (\<lambda>(tts_schema', field_roles', st).
          case unique_dimension_combos st of
            None \<Rightarrow> Inl PyTypeError
          | Some combos \<Rightarrow> Inr ((tts_schema', field_roles'), st)))))"

fun process_files ::
  "nat \<Rightarrow> string option \<Rightarrow> tts_schema option \<times> roles option \<Rightarrow> (string \<times> csv_file) list
     \<Rightarrow> error + stats list" where
  "process_files chunksize domain carried [] = Inr []"
| "process_files chunksize domain carried ((tts_filename, file) # files) =
     and_then (process_file chunksize domain carried file) (\<lambda>(carried', report).
     and_then (process_files chunksize domain carried' files) (\<lambda>reports.
       Inr (report # reports)))"

text \<open>
  \<^verbatim>\<open>diagnose\<close> prints one report per file and returns nothing; the model returns the
  reports in the order they are printed, or the exception that ends the run. The chunk
  size is a parameter of \<open>diagnose_chunked\<close>; \<open>diagnose\<close> uses \<^verbatim>\<open>CHUNKSIZE\<close>.
\<close>

definition diagnose_chunked ::
  "nat \<Rightarrow> string \<Rightarrow> path_entry \<Rightarrow> string option \<Rightarrow> tts_schema option \<Rightarrow> error + stats list" where
  "diagnose_chunked chunksize tts_path entry domain tts_schema =
     and_then (case domain of
                 None \<Rightarrow> Inr ()
               | Some dname \<Rightarrow>
                   (case map_of DOMAINS dname of
                      None \<Rightarrow> Inl (UnsupportedDomain dname)
                    | Some d \<Rightarrow> Inr ())) (\<lambda>u.
     and_then (case domain of
                 None \<Rightarrow> Inr None
               | Some dname \<Rightarrow>
                   (case tts_schema of
                      None \<Rightarrow> Inr None
                    | Some attrs \<Rightarrow> and_then (resolve_roles attrs domain) (\<lambda>r. Inr (Some r)))) (\<lambda>field_roles.
     and_then (resolve_tts_filenames tts_path entry) (\<lambda>tts_filenames.
       process_files chunksize domain (tts_schema, field_roles) tts_filenames)))"

definition diagnose ::
  "string \<Rightarrow> path_entry \<Rightarrow> string option \<Rightarrow> tts_schema option \<Rightarrow> error + stats list" where
  "diagnose = diagnose_chunked CHUNKSIZE"

subsection \<open>Notions the properties are stated with\<close>

text \<open>
  The first attribute of a schema with a given name, and a template field that this
  attribute satisfies: it exists and has the type the template declares.
\<close>

definition first_named :: "tts_schema \<Rightarrow> string \<Rightarrow> attr option" where
  "first_named attrs fname = find (\<lambda>f. attr_name f = Name fname) attrs"

definition field_conforms :: "tts_schema \<Rightarrow> string \<times> SchemaAttribute \<Rightarrow> bool" where
  "field_conforms attrs p =
     (case first_named attrs (fst p) of
        None \<Rightarrow> False
      | Some m \<Rightarrow> attr_type m = AttributeType (snd p))"

text \<open>
  The checks \<^verbatim>\<open>diagnose\<close> makes before it looks at the path (lines 303-324): an explicit
  domain is in the table, and an explicit schema given with it validates.
\<close>

definition prechecks_pass :: "string option \<Rightarrow> tts_schema option \<Rightarrow> bool" where
  "prechecks_pass domain tts_schema =
     (case domain of
        None \<Rightarrow> True
      | Some dname \<Rightarrow>
          (case map_of DOMAINS dname of
             None \<Rightarrow> False
           | Some d \<Rightarrow>
               (case tts_schema of
                  None \<Rightarrow> True
                | Some attrs \<Rightarrow>
                    (case resolve_roles attrs domain of Inl e \<Rightarrow> False | Inr r \<Rightarrow> True))))"

text \<open>
  The name a column gets from a template by its type: the required field of that type
  when there is exactly one, else the optional field of that type when there is no
  required and exactly one optional one, else the label the column already has.
\<close>

definition inferred_name :: "domain_template \<Rightarrow> attr \<Rightarrow> attr" where
  "inferred_name d a =
     (case matching_fields (required_fields (tts d)) (attr_type a) of
        [] \<Rightarrow>
          (case matching_fields (optional_fields (tts d)) (attr_type a) of
             [f] \<Rightarrow> a\<lparr>attr_name := Name f\<rparr>
           | _ \<Rightarrow> a)
      | [f] \<Rightarrow> a\<lparr>attr_name := Name f\<rparr>
      | _ \<Rightarrow> a)"

text \<open>The loop over the chunks of a file once the schema and the roles are known.\<close>

fun aggregate :: "roles \<Rightarrow> colname list \<Rightarrow> stats \<Rightarrow> row list list \<Rightarrow> error + stats" where
  "aggregate r names st [] = Inr st"
| "aggregate r names st (tts_chunk # chunks) =
     and_then (update_statistics r names st tts_chunk) (\<lambda>st'. aggregate r names st' chunks)"

text \<open>A row with no NaN in the columns at the given positions.\<close>

definition complete_row :: "nat list \<Rightarrow> row \<Rightarrow> bool" where
  "complete_row idxs r = (case dimension_key idxs r of None \<Rightarrow> False | Some k \<Rightarrow> True)"

text \<open>The count a Series holds for a label, 0 when it has none or holds NaN.\<close>

definition looked_up :: "'k series \<Rightarrow> 'k \<Rightarrow> nat" where
  "looked_up g k = (case map_of g k of None \<Rightarrow> 0 | Some None \<Rightarrow> 0 | Some (Some b) \<Rightarrow> b)"

subsection \<open>Example inputs\<close>

definition retail_schema :: tts_schema where
  "retail_schema =
     [\<lparr>attr_name = Name ''item_id'', attr_type = ''string''\<rparr>,
      \<lparr>attr_name = Name ''timestamp'', attr_type = ''timestamp''\<rparr>,
      \<lparr>attr_name = Name ''demand'', attr_type = ''float''\<rparr>]"

definition retail_template :: domain_template where
  "retail_template =
     \<lparr>target_field = ''demand'', tts = \<lparr>
        required_fields =
          [(''item_id'', attribute ''item_id'' ''string''),
           (''timestamp'', attribute ''timestamp'' ''timestamp''),
           (''demand'', attribute ''demand'' ''float'')],
        optional_fields = [(''location'', attribute ''location'' ''string'')]\<rparr>\<rparr>"

text \<open>
  Headerless RETAIL files: one row for item \<^verbatim>\<open>a\<close>, one row for item \<^verbatim>\<open>b\<close>, both rows,
  and two rows of which the second has no item. The dtypes of \<open>retail_columns\<close> are
  read only when a schema is inferred; they stand for a pandas whose date probe raises
  \<^verbatim>\<open>ParserError\<close> on the item column.
\<close>

definition row_a :: row where
  "row_a = [Some ''a'', Some ''2024-01-01'', Some ''1.0'']"

definition row_b :: row where
  "row_b = [Some ''b'', Some ''2024-01-02'', Some ''2.0'']"

definition row_no_item :: row where
  "row_no_item = [None, Some ''2024-01-02'', Some ''2.0'']"

definition retail_columns :: "(colname \<times> dtype) list" where
  "retail_columns = [(Ix 0, Object RaisesParserError), (Ix 1, Object Converts), (Ix 2, Float64)]"



definition file_ab :: csv_file where
  "file_ab = \<lparr>csv_rows = [[''a'', ''2024-01-01'', ''1.0''], [''b'', ''2024-01-02'', ''2.0'']],
              frame_columns = retail_columns, frame_rows = [row_a, row_b]\<rparr>"

definition file_with_null :: csv_file where
  "file_with_null =
     \<lparr>csv_rows = [[''a'', ''2024-01-01'', ''1.0''], [[], ''2024-01-02'', ''2.0'']],
      frame_columns = retail_columns, frame_rows = [row_a, row_no_item]\<rparr>"

definition retail_roles :: roles where
  "retail_roles = \<lparr>timestamp_field = Name ''timestamp'', target_column = Name ''demand'',
                    dimension_fields = [Name ''item_id'']\<rparr>"

section \<open>Schema attributes\<close>

lemma is_valid_name_iff: "is_valid_name name = (name \<noteq> [] \<and> is_ascii_letter (hd name))"
  by (cases name) (simp_all add: is_valid_name_def re_match_name_def)

lemma DOMAINS_attributes_constructed:
  "\<forall>(k, d) \<in> set DOMAINS.
     \<forall>(f, a) \<in> set (required_fields (tts d) @ optional_fields (tts d)).
       SchemaAttribute_init (AttributeName a) (AttributeType a) = Inr a"
  by (simp add: DOMAINS_def attribute_def SchemaAttribute_init_def is_valid_name_iff
      is_ascii_letter_def is_valid_type_def)

lemma retail_template_in_DOMAINS: "map_of DOMAINS ''RETAIL'' = Some retail_template"
  by (simp add: DOMAINS_def retail_template_def)

text \<open>
  What the constructor checks: the name starts with a letter (nothing is asked of the
  characters after it) and the type is one of the four keywords.
\<close>

lemma SchemaAttribute_init_succeeds_iff:
  "(\<exists>a. SchemaAttribute_init name typ = Inr a) =
     (name \<noteq> [] \<and> is_ascii_letter (hd name) \<and> is_valid_type typ)"
  by (auto simp: SchemaAttribute_init_def is_valid_name_iff)

text \<open>
  C6. The claim: construction succeeds if and only if the whole name is a letter
  followed by letters, digits and underscores, and the type is one of the four
  keywords. The constructor accepts the name \<^verbatim>\<open>a-b\<close>, which is not of that shape:
  \<^verbatim>\<open>re.match\<close> finds the pattern at the start of the name and the rest is not looked at.
\<close>

theorem SchemaAttribute_accepts_unanchored_name:
  "SchemaAttribute_init ''a-b'' ''string''
     = Inr \<lparr>AttributeName = ''a-b'', AttributeType = ''string''\<rparr>
   \<and> \<not> spec_identifier ''a-b''"
  by (simp add: SchemaAttribute_init_def is_valid_name_def re_match_name_def is_ascii_letter_def
      is_valid_type_def spec_identifier_def is_name_char_def)

section \<open>The domain catalog\<close>

text \<open>
  C9. The claim: the catalog is keyed by RETAIL, CUSTOM, INVENTORY_PLANNING,
  EC2_CAPACITY, WORK_FORCE, WEB_TRAFFIC and METRICS. The fourth key of the table is
  \<^verbatim>\<open>EC2 CAPACITY\<close>, with a space: \<^verbatim>\<open>EC2_CAPACITY\<close> is not a key, and \<^verbatim>\<open>diagnose\<close>
  refuses it as a domain whatever the other arguments are.
\<close>

theorem DOMAINS_has_no_EC2_CAPACITY_key:
  "map fst DOMAINS = [''RETAIL'', ''CUSTOM'', ''INVENTORY_PLANNING'', ''EC2 CAPACITY'',
      ''WORK_FORCE'', ''WEB_TRAFFIC'', ''METRICS'']
   \<and> map_of DOMAINS ''EC2_CAPACITY'' = None
   \<and> diagnose tts_path entry (Some ''EC2_CAPACITY'') tts_schema
       = Inl (UnsupportedDomain ''EC2_CAPACITY'')"
  by (simp add: DOMAINS_def diagnose_def diagnose_chunked_def and_then_def)

section \<open>Sniffing\<close>

text \<open>
  C2, as stated: a first row made of type keywords only gives \<open>header = None\<close>. For the
  row \<^verbatim>\<open>string,timestamp,float\<close> the code returns the row as the header.
\<close>

theorem sniff_type_keyword_row_is_header:
  "list_all is_valid_type [''string'', ''timestamp'', ''float'']
   \<and> sniff_csv_file [[''string'', ''timestamp'', ''float'']]
       = Inr (Some [''string'', ''timestamp'', ''float''], 3)"
  by (simp add: sniff_csv_file_def is_valid_type_def)

text \<open>
  C2, amended: for a file with a first row, \<^verbatim>\<open>sniff_csv_file\<close> returns the cells of the
  row as the header when every cell is a type keyword, and no header when some cell is
  not; the column count is the length of the row. The row
  \<^verbatim>\<open>item_id,2024-01-01,10.5\<close> gives no header and three columns, the row
  \<^verbatim>\<open>string,timestamp,float\<close> gives that row as the header.
\<close>

theorem sniff_header_iff_all_type_keywords:
  "sniff_csv_file (row1 # rest) =
     Inr (if list_all is_valid_type row1 then Some row1 else None, length row1)
   \<and> sniff_csv_file ([''item_id'', ''2024-01-01'', ''10.5''] # rest) = Inr (None, 3)
   \<and> sniff_csv_file ([''string'', ''timestamp'', ''float''] # rest)
       = Inr (Some [''string'', ''timestamp'', ''float''], 3)"
  by (simp add: sniff_csv_file_def is_valid_type_def)

theorem sniff_header_iff_all_type_keywords_witness:
  "sniff_csv_file [[''float'', ''integer''], [''1.5'', ''2'']] = Inr (Some [''float'', ''integer''], 2)
   \<and> sniff_csv_file [[''item_id'', ''demand''], [''a'', ''2'']] = Inr (None, 2)"
  using sniff_header_iff_all_type_keywords [of "[''float'', ''integer'']" "[[''1.5'', ''2'']]"]
    sniff_header_iff_all_type_keywords [of "[''item_id'', ''demand'']" "[[''a'', ''2'']]"]
  by (simp add: is_valid_type_def)

section \<open>Validation against a domain\<close>

lemma filter_find:
  "(case filter P xs of [] \<Rightarrow> a | m # ms \<Rightarrow> b m) = (case find P xs of None \<Rightarrow> a | Some m \<Rightarrow> b m)"
  by (induction xs) auto

lemma find_Some_member: "find P xs = Some x \<Longrightarrow> x \<in> set xs \<and> P x"
  by (induction xs) (auto split: if_splits)

text \<open>
  The loop over the required fields stops at the first field that does not conform; the
  error tells whether an attribute of that name exists.
\<close>

lemma check_required_fields_find:
  "check_required_fields attrs req =
     (case find (\<lambda>p. \<not> field_conforms attrs p) req of
        None \<Rightarrow> None
      | Some (f, spec) \<Rightarrow>
          Some (if first_named attrs f = None then MissingRequiredField f
                else RequiredFieldTypeMismatch f))"
proof (induction req)
  case Nil
  show ?case by simp
next
  case (Cons p req)
  obtain f spec where p: "p = (f, spec)" by (cases p)
  show ?case
    using Cons
    by (simp add: p filter_find field_conforms_def first_named_def split: option.splits)
qed

lemma first_named_None_iff: "(first_named attrs f = None) = (Name f \<notin> attr_name ` set attrs)"
  by (force simp: first_named_def find_None_iff)

lemma check_required_fields_conforming:
  assumes "list_all (field_conforms attrs) req"
  shows "check_required_fields attrs req = None"
proof -
  have "find (\<lambda>p. \<not> field_conforms attrs p) req = None"
    using assms by (simp add: find_None_iff list_all_iff)
  then show ?thesis
    by (simp add: check_required_fields_find)
qed

text \<open>
  C4, as stated: a schema that lacks a required field fails with
  \<^verbatim>\<open>MissingRequiredField\<close>. The schema with the single attribute \<^verbatim>\<open>item_id: integer\<close> lacks
  the required field \<^verbatim>\<open>timestamp\<close> of RETAIL, and validation fails with
  \<^verbatim>\<open>RequiredFieldTypeMismatch\<close>: \<^verbatim>\<open>item_id\<close> comes first in the template.
\<close>

theorem validate_mismatch_reported_before_missing:
  "(''timestamp'', attribute ''timestamp'' ''timestamp'') \<in> set (required_fields (tts retail_template))
   \<and> map_of DOMAINS ''RETAIL'' = Some retail_template
   \<and> Name ''timestamp'' \<notin> attr_name ` set [\<lparr>attr_name = Name ''item_id'', attr_type = ''integer''\<rparr>]
   \<and> validate_tts_schema_on_domain [\<lparr>attr_name = Name ''item_id'', attr_type = ''integer''\<rparr>] ''RETAIL''
       = Inl (RequiredFieldTypeMismatch ''item_id'')"
  by (simp add: DOMAINS_def retail_template_def validate_tts_schema_on_domain_def attribute_def)

text \<open>
  C4, amended: for every domain of the catalog and every schema, validation goes through
  the required fields in the order of the template. If the first attribute named as
  each required field has the declared type, validation succeeds and the required-field
  list it returns is the list of the required field names of the template. Otherwise it
  fails at the first required field that does not conform: with
  \<^verbatim>\<open>RequiredFieldTypeMismatch\<close> if the schema has an attribute of that name, with
  \<^verbatim>\<open>MissingRequiredField\<close> if it has none.
\<close>

theorem validate_required_fields_in_order:
  assumes "map_of DOMAINS domain = Some d"
  shows "(list_all (field_conforms attrs) (required_fields (tts d)) \<longrightarrow>
            (\<exists>v. validate_tts_schema_on_domain attrs domain = Inr v
                 \<and> required_fnames v = map fst (required_fields (tts d))))
         \<and> (\<forall>f spec. find (\<lambda>p. \<not> field_conforms attrs p) (required_fields (tts d)) = Some (f, spec) \<longrightarrow>
               validate_tts_schema_on_domain attrs domain =
                 Inl (if Name f \<in> attr_name ` set attrs then RequiredFieldTypeMismatch f
                      else MissingRequiredField f))"
proof (intro conjI allI impI)
  assume "list_all (field_conforms attrs) (required_fields (tts d))"
  then have "check_required_fields attrs (required_fields (tts d)) = None"
    by (rule check_required_fields_conforming)
  then show "\<exists>v. validate_tts_schema_on_domain attrs domain = Inr v
                 \<and> required_fnames v = map fst (required_fields (tts d))"
    using assms by (simp add: validate_tts_schema_on_domain_def Let_def split: prod.splits)
next
  fix f spec
  assume "find (\<lambda>p. \<not> field_conforms attrs p) (required_fields (tts d)) = Some (f, spec)"
  then have "check_required_fields attrs (required_fields (tts d)) =
      Some (if first_named attrs f = None then MissingRequiredField f else RequiredFieldTypeMismatch f)"
    by (simp add: check_required_fields_find)
  then show "validate_tts_schema_on_domain attrs domain =
                 Inl (if Name f \<in> attr_name ` set attrs then RequiredFieldTypeMismatch f
                      else MissingRequiredField f)"
    using assms by (simp add: validate_tts_schema_on_domain_def first_named_None_iff)
qed

theorem validate_required_fields_in_order_witness:
  "map_of DOMAINS ''RETAIL'' = Some retail_template
   \<and> list_all (field_conforms retail_schema) (required_fields (tts retail_template))
   \<and> (\<exists>v. validate_tts_schema_on_domain retail_schema ''RETAIL'' = Inr v
          \<and> required_fnames v = [''item_id'', ''timestamp'', ''demand''])
   \<and> find (\<lambda>p. \<not> field_conforms [\<lparr>attr_name = Name ''item_id'', attr_type = ''string''\<rparr>] p)
         (required_fields (tts retail_template))
       = Some (''timestamp'', attribute ''timestamp'' ''timestamp'')
   \<and> validate_tts_schema_on_domain [\<lparr>attr_name = Name ''item_id'', attr_type = ''string''\<rparr>] ''RETAIL''
       = Inl (MissingRequiredField ''timestamp'')"
proof -
  have conf: "list_all (field_conforms retail_schema) (required_fields (tts retail_template))"
    by (simp add: retail_schema_def retail_template_def field_conforms_def first_named_def
        attribute_def)
  have bad: "find (\<lambda>p. \<not> field_conforms [\<lparr>attr_name = Name ''item_id'', attr_type = ''string''\<rparr>] p)
         (required_fields (tts retail_template))
       = Some (''timestamp'', attribute ''timestamp'' ''timestamp'')"
    by (simp add: retail_template_def field_conforms_def first_named_def attribute_def)
  show ?thesis
    using retail_template_in_DOMAINS conf bad
      validate_required_fields_in_order [OF retail_template_in_DOMAINS, of retail_schema]
      validate_required_fields_in_order [OF retail_template_in_DOMAINS,
        of "[\<lparr>attr_name = Name ''item_id'', attr_type = ''string''\<rparr>]"]
    by (simp add: retail_template_def)
qed

lemma scan_optional_used:
  "(f \<in> set (fst (scan_optional_fields attrs opts))) =
     (\<exists>spec. (f, spec) \<in> set opts \<and> field_conforms attrs (f, spec))"
proof (induction opts)
  case Nil
  show ?case by simp
next
  case (Cons p opts)
  obtain g s where p: "p = (g, s)" by (cases p)
  show ?case
    using Cons
    by (cases "first_named attrs g")
       (auto simp: p field_conforms_def first_named_def split: prod.splits)
qed

lemma scan_optional_warned:
  "(f \<in> set (snd (scan_optional_fields attrs opts))) =
     (\<exists>spec m. (f, spec) \<in> set opts \<and> first_named attrs f = Some m
               \<and> attr_type m \<noteq> AttributeType spec)"
proof (induction opts)
  case Nil
  show ?case by simp
next
  case (Cons p opts)
  obtain g s where p: "p = (g, s)" by (cases p)
  show ?case
    using Cons
    by (cases "first_named attrs g")
       (auto simp: p first_named_def split: prod.splits)
qed

lemma DOMAINS_optional_names:
  assumes "(k, d) \<in> set DOMAINS"
  shows "distinct (map fst (optional_fields (tts d)))"
    and "set (map fst (optional_fields (tts d))) \<inter> set (map fst (required_fields (tts d))) = {}"
  using assms by (auto simp: DOMAINS_def)

text \<open>
  C5, as stated: a schema with an attribute named as an optional field of the domain,
  of another type, gets a warning, and the field is left out of the optional fields
  used and listed as custom. The RETAIL schema followed by \<^verbatim>\<open>location: string\<close> and
  \<^verbatim>\<open>location: integer\<close> has such an attribute, the last one; validation looks at the
  first attribute of that name only (line 224), so there is no warning, \<^verbatim>\<open>location\<close> is
  an optional field used and no field is custom.
\<close>

theorem validate_optional_mismatch_behind_match:
  "(''location'', attribute ''location'' ''string'') \<in> set (optional_fields (tts retail_template))
   \<and> map_of DOMAINS ''RETAIL'' = Some retail_template
   \<and> \<lparr>attr_name = Name ''location'', attr_type = ''integer''\<rparr>
       \<in> set (retail_schema @ [\<lparr>attr_name = Name ''location'', attr_type = ''string''\<rparr>,
                              \<lparr>attr_name = Name ''location'', attr_type = ''integer''\<rparr>])
   \<and> ''integer'' \<noteq> AttributeType (attribute ''location'' ''string'')
   \<and> validate_tts_schema_on_domain
         (retail_schema @ [\<lparr>attr_name = Name ''location'', attr_type = ''string''\<rparr>,
                           \<lparr>attr_name = Name ''location'', attr_type = ''integer''\<rparr>]) ''RETAIL''
       = Inr \<lparr>required_fnames = [''item_id'', ''timestamp'', ''demand''],
              optional_fields_used = [''location''], custom_fnames = [], warnings = []\<rparr>"
  by (simp add: DOMAINS_def retail_template_def retail_schema_def validate_tts_schema_on_domain_def
      attribute_def)

text \<open>
  C5, amended: for every domain of the catalog and every schema that passes the checks
  of the required fields, if the first attribute named as an optional field of the
  domain has another type than the declared one, validation succeeds, prints a warning
  for the field, leaves it out of the optional fields used and lists it among the
  custom fields.
\<close>

theorem validate_optional_mismatch_is_custom:
  assumes dom: "map_of DOMAINS domain = Some d"
    and req: "list_all (field_conforms attrs) (required_fields (tts d))"
    and opt: "(f, spec) \<in> set (optional_fields (tts d))"
    and fst_named: "first_named attrs f = Some m"
    and differs: "attr_type m \<noteq> AttributeType spec"
  shows "\<exists>v. validate_tts_schema_on_domain attrs domain = Inr v
            \<and> f \<in> set (warnings v)
            \<and> f \<notin> set (optional_fields_used v)
            \<and> Name f \<in> set (custom_fnames v)"
proof -
  have "(domain, d) \<in> set DOMAINS"
    using dom by (rule map_of_SomeD)
  then have dist: "distinct (map fst (optional_fields (tts d)))"
    and disj: "set (map fst (optional_fields (tts d))) \<inter> set (map fst (required_fields (tts d))) = {}"
    by (rule DOMAINS_optional_names)+
  obtain used warned where scan: "scan_optional_fields attrs (optional_fields (tts d)) = (used, warned)"
    by (cases "scan_optional_fields attrs (optional_fields (tts d))")
  have chk: "check_required_fields attrs (required_fields (tts d)) = None"
    using req by (rule check_required_fields_conforming)
  have warned: "f \<in> set warned"
    using scan_optional_warned [of f attrs "optional_fields (tts d)"] scan opt fst_named differs
    by auto
  have not_used: "f \<notin> set used"
  proof
    assume "f \<in> set used"
    then obtain spec' where s': "(f, spec') \<in> set (optional_fields (tts d))"
      and c': "field_conforms attrs (f, spec')"
      using scan_optional_used [of f attrs "optional_fields (tts d)"] scan by auto
    from dist s' opt have "spec' = spec"
      by (meson eq_key_imp_eq_value)
    with c' fst_named differs show False
      by (simp add: field_conforms_def)
  qed
  have "f \<in> set (map fst (optional_fields (tts d)))"
    using opt by force
  with disj have not_req: "f \<notin> set (map fst (required_fields (tts d)))"
    by blast
  have in_schema: "Name f \<in> set (map attr_name attrs)"
    using fst_named first_named_None_iff [of attrs f] by auto
  have custom: "Name f \<in> set (filter (\<lambda>n. n \<notin> set (map Name (used @ map fst (required_fields (tts d)))))
                    (map attr_name attrs))"
    using in_schema not_used not_req by auto
  show ?thesis
    using dom chk scan warned not_used custom
    by (auto simp: validate_tts_schema_on_domain_def)
qed

theorem validate_optional_mismatch_is_custom_witness:
  "list_all (field_conforms (retail_schema @ [\<lparr>attr_name = Name ''location'', attr_type = ''integer''\<rparr>]))
       (required_fields (tts retail_template))
   \<and> (''location'', attribute ''location'' ''string'') \<in> set (optional_fields (tts retail_template))
   \<and> first_named (retail_schema @ [\<lparr>attr_name = Name ''location'', attr_type = ''integer''\<rparr>]) ''location''
       = Some \<lparr>attr_name = Name ''location'', attr_type = ''integer''\<rparr>
   \<and> ''integer'' \<noteq> AttributeType (attribute ''location'' ''string'')
   \<and> (\<exists>v. validate_tts_schema_on_domain
             (retail_schema @ [\<lparr>attr_name = Name ''location'', attr_type = ''integer''\<rparr>]) ''RETAIL'' = Inr v
          \<and> ''location'' \<in> set (warnings v)
          \<and> ''location'' \<notin> set (optional_fields_used v)
          \<and> Name ''location'' \<in> set (custom_fnames v))"
proof -
  let ?s = "retail_schema @ [\<lparr>attr_name = Name ''location'', attr_type = ''integer''\<rparr>]"
  have req: "list_all (field_conforms ?s) (required_fields (tts retail_template))"
    by (simp add: retail_schema_def retail_template_def field_conforms_def first_named_def
        attribute_def)
  have opt: "(''location'', attribute ''location'' ''string'') \<in> set (optional_fields (tts retail_template))"
    by (simp add: retail_template_def)
  have fst_named: "first_named ?s ''location'' = Some \<lparr>attr_name = Name ''location'', attr_type = ''integer''\<rparr>"
    by (simp add: retail_schema_def first_named_def)
  have differs: "attr_type \<lparr>attr_name = Name ''location'', attr_type = ''integer''\<rparr>
                   \<noteq> AttributeType (attribute ''location'' ''string'')"
    by (simp add: attribute_def)
  show ?thesis
    using req opt fst_named differs
      validate_optional_mismatch_is_custom [OF retail_template_in_DOMAINS req opt fst_named differs]
    by simp
qed

section \<open>Input resolution\<close>

lemma diagnose_after_prechecks:
  assumes "prechecks_pass domain tts_schema"
  shows "\<exists>field_roles. diagnose_chunked n tts_path entry domain tts_schema =
           and_then (resolve_tts_filenames tts_path entry) (\<lambda>tts_filenames.
             process_files n domain (tts_schema, field_roles) tts_filenames)"
  using assms
  by (auto simp: prechecks_pass_def diagnose_chunked_def and_then_def
      split: option.splits sum.splits)

lemma sort_key_Nil_iff: "(sort_key f xs = []) = (xs = [])"
  by (metis length_0_conv length_sort)

lemma resolve_empty_iff:
  "(resolve_tts_filenames tts_path entry = Inr []) = (entry = Directory [])"
  by (cases entry) (auto simp: resolve_tts_filenames_def Let_def sort_key_Nil_iff)

lemma sort_key_twice: "sort_key f (sort_key f xs) = sort_key f xs"
  by (simp add: sort_key_id_if_sorted)

lemma length_filter_pos_iff: "(0 < length (filter P xs)) = list_ex P xs"
  by (induction xs) auto

lemma length_filter_less_iff: "(length (filter P xs) < length xs) = list_ex (\<lambda>x. \<not> P x) xs"
proof (induction xs)
  case Nil
  show ?case by simp
next
  case (Cons x xs)
  have "length (filter P xs) < Suc (length xs)"
    by (rule le_imp_less_Suc) (rule length_filter_le)
  with Cons show ?case by auto
qed

lemma resolve_directory:
  "resolve_tts_filenames tts_path (Directory found) =
     Inr (sort_key fst
           (if list_ex (\<lambda>(f, c). is_csv_filename f) found
               \<and> list_ex (\<lambda>(f, c). \<not> is_csv_filename f) found
            then filter (\<lambda>(f, c). is_csv_filename f) found else found))"
proof -
  let ?P = "\<lambda>(f, c). is_csv_filename f"
  have neg: "(\<lambda>x. \<not> ?P x) = (\<lambda>(f, c). \<not> is_csv_filename f)"
    by auto
  have sorted_filter: "sort_key fst (filter ?P (sort_key fst found)) = sort_key fst (filter ?P found)"
    by (simp add: filter_sort sort_key_twice)
  have pos: "(0 < length (sort_key fst (filter ?P found))) = list_ex ?P found"
    using length_filter_pos_iff [of ?P found] by simp
  have less: "(length (sort_key fst (filter ?P found)) < length (sort_key fst found))
                = list_ex (\<lambda>(f, c). \<not> is_csv_filename f) found"
    using length_filter_less_iff [of ?P found] by (simp add: neg)
  show ?thesis
    unfolding resolve_tts_filenames_def Let_def path_entry.case sorted_filter pos less
    by simp
qed

text \<open>
  C7, as stated: a path whose expansion is empty makes the run fail with
  \<^verbatim>\<open>NoInputFiles\<close>. For a directory with no file under it the run ends normally, with no
  report.
\<close>

theorem diagnose_empty_directory_succeeds:
  "resolve_tts_filenames ''data'' (Directory []) = Inr []
   \<and> diagnose ''data'' (Directory []) (Some ''RETAIL'') None = Inr []"
  by (simp add: diagnose_def diagnose_chunked_def resolve_tts_filenames_def and_then_def DOMAINS_def)

text \<open>
  C7, amended: when the checks of the domain and of the schema that come before pass,
  a path that is neither a file nor a directory makes the run fail with
  \<^verbatim>\<open>InvalidPath\<close>; an expansion with no file, which only a directory with no file under
  it gives, does not make the run fail: it ends with no report. A directory expands to
  its files sorted by path, all of them unless some but not all have a
  case-insensitive \<^verbatim>\<open>.csv\<close> suffix, in which case only those.
\<close>

theorem diagnose_input_resolution:
  assumes "prechecks_pass domain tts_schema"
  shows "diagnose tts_path Absent domain tts_schema = Inl InvalidPath
       \<and> diagnose tts_path (Directory []) domain tts_schema = Inr []
       \<and> (resolve_tts_filenames tts_path entry = Inr []) = (entry = Directory [])
       \<and> resolve_tts_filenames tts_path (Directory found) =
           Inr (sort_key fst
                 (if list_ex (\<lambda>(f, c). is_csv_filename f) found
                     \<and> list_ex (\<lambda>(f, c). \<not> is_csv_filename f) found
                  then filter (\<lambda>(f, c). is_csv_filename f) found else found))"
proof -
  obtain r1 where "diagnose tts_path Absent domain tts_schema =
      and_then (resolve_tts_filenames tts_path Absent) (\<lambda>tts_filenames.
             process_files CHUNKSIZE domain (tts_schema, r1) tts_filenames)"
    using diagnose_after_prechecks [OF assms] unfolding diagnose_def by blast
  then have a: "diagnose tts_path Absent domain tts_schema = Inl InvalidPath"
    by (simp add: resolve_tts_filenames_def and_then_def)
  obtain r2 where "diagnose tts_path (Directory []) domain tts_schema =
      and_then (resolve_tts_filenames tts_path (Directory [])) (\<lambda>tts_filenames.
             process_files CHUNKSIZE domain (tts_schema, r2) tts_filenames)"
    using diagnose_after_prechecks [OF assms] unfolding diagnose_def by blast
  then have b: "diagnose tts_path (Directory []) domain tts_schema = Inr []"
    by (simp add: and_then_def resolve_tts_filenames_def)
  show ?thesis
    using a b resolve_empty_iff resolve_directory by simp
qed

theorem diagnose_input_resolution_witness:
  "prechecks_pass (Some ''RETAIL'') None
   \<and> diagnose ''missing.csv'' Absent (Some ''RETAIL'') None = Inl InvalidPath
   \<and> diagnose ''data'' (Directory []) (Some ''RETAIL'') None = Inr []"
proof -
  have p: "prechecks_pass (Some ''RETAIL'') None"
    by (simp add: prechecks_pass_def retail_template_in_DOMAINS)
  show ?thesis
    using p diagnose_input_resolution [OF p, of "''missing.csv''" "Directory []" "[]"]
      diagnose_input_resolution [OF p, of "''data''" "Directory []" "[]"]
    by simp
qed

section \<open>Inference of column names\<close>

lemma infer_names_fails:
  assumes "find (\<lambda>(t, n). n > 1 \<or> length (matching_fields (required_fields (tts d)) t) > 1) cnts
             = Some (t, n)"
  shows "infer_names d cnts attrs = Inl (AmbiguousColumnMapping t)"
  using assms
proof (induction cnts arbitrary: attrs)
  case Nil
  then show ?case by simp
next
  case (Cons c cnts)
  obtain t' n' where c: "c = (t', n')" by (cases c)
  show ?case
    using Cons by (auto simp: c Let_def split: if_splits)
qed

lemma DOMAINS_one_required_per_type:
  assumes "(k, d) \<in> set DOMAINS"
  shows "length (matching_fields (required_fields (tts d)) t) \<le> 1"
  using assms by (auto simp: DOMAINS_def matching_fields_def attribute_def)

lemma first_seen_set [simp]: "set (first_seen xs) = set xs"
  by (simp add: first_seen_def)

lemma first_seen_distinct [simp]: "distinct (first_seen xs)"
  by (simp add: first_seen_def)

lemma count_list_distinct: "distinct xs \<Longrightarrow> x \<in> set xs \<Longrightarrow> count_list xs x = 1"
  by (induction xs) auto

lemma not_distinct_count: "\<not> distinct xs \<Longrightarrow> \<exists>x \<in> set xs. count_list xs x > 1"
proof (induction xs)
  case Nil
  then show ?case by simp
next
  case (Cons a xs)
  show ?case
  proof (cases "a \<in> set xs")
    case True
    then have "count_list xs a > 0"
      using count_list_0_iff [of xs a] by simp
    then show ?thesis by auto
  next
    case False
    with Cons show ?thesis by auto
  qed
qed

text \<open>
  C8, as stated: inference fails when an inferred type has no candidate field in the
  template. RETAIL has no integer field, required or optional; with a fourth column of
  integers inference succeeds, and that column keeps its position as its label.
\<close>

theorem infer_schema_unmatched_type_succeeds:
  "matching_fields (required_fields (tts retail_template)) ''integer'' = []
   \<and> matching_fields (optional_fields (tts retail_template)) ''integer'' = []
   \<and> map_of DOMAINS ''RETAIL'' = Some retail_template
   \<and> infer_schema (Some ''RETAIL'') None
        [(Ix 0, Object RaisesParserError), (Ix 1, Object Converts), (Ix 2, Float64), (Ix 3, Int64)]
       = Inr [\<lparr>attr_name = Name ''item_id'', attr_type = ''string''\<rparr>,
              \<lparr>attr_name = Name ''timestamp'', attr_type = ''timestamp''\<rparr>,
              \<lparr>attr_name = Name ''demand'', attr_type = ''float''\<rparr>,
              \<lparr>attr_name = Ix 3, attr_type = ''integer''\<rparr>]"
  by (simp add: DOMAINS_def retail_template_def matching_fields_def attribute_def infer_schema_def
      and_then_def schematype_of_def field_counts_by_type_def first_seen_def)

lemma rename_first_distinct:
  assumes "distinct (map attr_type attrs)"
  shows "rename_first t new attrs =
           map (\<lambda>a. if attr_type a = t then a\<lparr>attr_name := new\<rparr> else a) attrs"
  using assms
proof (induction attrs)
  case Nil
  show ?case by simp
next
  case (Cons a attrs)
  show ?case
  proof (cases "attr_type a = t")
    case True
    from Cons.prems have "attr_type a \<notin> set (map attr_type attrs)"
      by simp
    with True have "\<forall>b \<in> set attrs. attr_type b \<noteq> t"
      by (fastforce simp: image_iff)
    then have "map (\<lambda>a. if attr_type a = t then a\<lparr>attr_name := new\<rparr> else a) attrs = attrs"
      by (simp add: map_idI)
    with True show ?thesis by simp
  next
    case False
    with Cons show ?thesis by simp
  qed
qed

lemma inferred_name_type [simp]: "attr_type (inferred_name d a) = attr_type a"
  by (simp add: inferred_name_def split: list.splits)

text \<open>
  One turn of the loop of lines 437-470, for a type that passes both checks: the
  column of that type, if any, gets its inferred name.
\<close>

lemma infer_names_step:
  assumes types: "distinct (map attr_type attrs)"
    and n: "\<not> n > 1"
    and req: "\<not> length (matching_fields (required_fields (tts d)) t) > 1"
  shows "infer_names d ((t, n) # rest) attrs =
           infer_names d rest
             (map (\<lambda>a. if attr_type a = t then inferred_name d a else a) attrs)"
proof -
  let ?req = "matching_fields (required_fields (tts d)) t"
  let ?opt = "matching_fields (optional_fields (tts d)) t"
  have same: "map (\<lambda>a. if attr_type a = t then inferred_name d a else a) attrs =
              map (\<lambda>a. if attr_type a = t then a\<lparr>attr_name := new\<rparr> else a) attrs"
    if "\<And>a. attr_type a = t \<Longrightarrow> inferred_name d a = a\<lparr>attr_name := new\<rparr>" for new
    using that by (intro map_cong) auto
  consider (one) f where "?req = [f]"
    | (opt) f where "?req = []" "?opt = [f]"
    | (none) "?req = []" "length ?opt \<noteq> 1"
    using req by (cases ?req; cases ?opt; cases "tl ?req"; cases "tl ?opt") auto
  then show ?thesis
  proof cases
    case one
    then have "\<And>a. attr_type a = t \<Longrightarrow> inferred_name d a = a\<lparr>attr_name := Name f\<rparr>"
      by (simp add: inferred_name_def)
    then have eq: "map (\<lambda>a. if attr_type a = t then inferred_name d a else a) attrs =
              map (\<lambda>a. if attr_type a = t then a\<lparr>attr_name := Name f\<rparr> else a) attrs"
      by (rule same)
    show ?thesis
      unfolding eq using one n by (simp add: Let_def rename_first_distinct [OF types])
  next
    case opt
    then have "\<And>a. attr_type a = t \<Longrightarrow> inferred_name d a = a\<lparr>attr_name := Name f\<rparr>"
      by (simp add: inferred_name_def)
    then have eq: "map (\<lambda>a. if attr_type a = t then inferred_name d a else a) attrs =
              map (\<lambda>a. if attr_type a = t then a\<lparr>attr_name := Name f\<rparr> else a) attrs"
      by (rule same)
    show ?thesis
      unfolding eq using opt n by (simp add: Let_def rename_first_distinct [OF types])
  next
    case none
    then have "\<And>a. attr_type a = t \<Longrightarrow> inferred_name d a = a"
      by (auto simp: inferred_name_def split: list.splits)
    then have eq: "map (\<lambda>a. if attr_type a = t then inferred_name d a else a) attrs = attrs"
      by (intro map_idI) auto
    show ?thesis
      unfolding eq using none n by (simp add: Let_def)
  qed
qed

lemma infer_names_result:
  assumes "\<forall>(t, n) \<in> set cnts. \<not> n > 1 \<and> \<not> length (matching_fields (required_fields (tts d)) t) > 1"
    and "distinct (map fst cnts)"
    and "distinct (map attr_type attrs)"
  shows "infer_names d cnts attrs =
           Inr (map (\<lambda>a. if attr_type a \<in> fst ` set cnts then inferred_name d a else a) attrs)"
  using assms
proof (induction cnts arbitrary: attrs)
  case Nil
  show ?case by (simp add: map_idI)
next
  case (Cons c cnts)
  obtain t n where c: "c = (t, n)" by (cases c)
  let ?step = "map (\<lambda>a. if attr_type a = t then inferred_name d a else a) attrs"
  have here: "\<not> n > 1" "\<not> length (matching_fields (required_fields (tts d)) t) > 1"
    and rest: "\<forall>(t, n) \<in> set cnts. \<not> n > 1 \<and> \<not> length (matching_fields (required_fields (tts d)) t) > 1"
    and fresh: "t \<notin> fst ` set cnts"
    and dist: "distinct (map fst cnts)"
    using Cons.prems(1,2) by (auto simp: c)
  have types: "map attr_type ?step = map attr_type attrs"
    by (induction attrs) auto
  have dstep: "distinct (map attr_type ?step)"
    unfolding types by (rule Cons.prems(3))
  have "infer_names d (c # cnts) attrs = infer_names d cnts ?step"
    unfolding c using Cons.prems(3) here by (rule infer_names_step)
  also have "\<dots> = Inr (map (\<lambda>a. if attr_type a \<in> fst ` set cnts then inferred_name d a else a) ?step)"
    using rest dist dstep by (rule Cons.IH)
  also have "map (\<lambda>a. if attr_type a \<in> fst ` set cnts then inferred_name d a else a) ?step =
             map (\<lambda>a. if attr_type a \<in> fst ` set (c # cnts) then inferred_name d a else a) attrs"
    using fresh by (auto simp: c)
  finally show ?case .
qed

text \<open>
  C8, amended: when no schema was supplied and the first file has no header row, for
  a domain of the catalog and columns whose schema types line 408-422 determine (a
  supported dtype, and a date probe that raises nothing but \<^verbatim>\<open>ParserError\<close>), name
  inference over the first chunk fails with \<^verbatim>\<open>AmbiguousColumnMapping\<close> exactly when
  more than one data column shares an inferred type (the error names such a type).
  Otherwise it succeeds: each column keeps its type and gets the name of the one
  required field of its type, else of the one optional field of its type, and a column
  whose type has no candidate field in the template keeps the label it had, unnamed.
  For RETAIL, two columns both inferred as float fail with \<^verbatim>\<open>AmbiguousColumnMapping\<close>.
\<close>

theorem infer_schema_fails_iff_shared_type:
  assumes dom: "map_of DOMAINS domain = Some d"
    and cols: "infer_attributes 0 cols = Inr attrs"
  shows "(distinct (map attr_type attrs) \<longrightarrow>
            (\<exists>attrs'. infer_schema (Some domain) None cols = Inr attrs'
               \<and> attrs' = map (inferred_name d) attrs
               \<and> (\<forall>i < length attrs.
                     matching_fields (required_fields (tts d)) (attr_type (attrs ! i)) = []
                     \<and> matching_fields (optional_fields (tts d)) (attr_type (attrs ! i)) = []
                     \<longrightarrow> attrs' ! i = attrs ! i)
               \<and> (\<forall>i < length attrs. \<forall>f.
                     matching_fields (required_fields (tts d)) (attr_type (attrs ! i)) = [f]
                     \<longrightarrow> attrs' ! i = (attrs ! i)\<lparr>attr_name := Name f\<rparr>)))
       \<and> (\<not> distinct (map attr_type attrs) \<longrightarrow>
            (\<exists>t. count_list (map attr_type attrs) t > 1
                \<and> infer_schema (Some domain) None cols = Inl (AmbiguousColumnMapping t)))
       \<and> infer_schema (Some ''RETAIL'') None [(Ix 0, Float64), (Ix 1, Float64)]
           = Inl (AmbiguousColumnMapping ''float'')"
proof -
  let ?bad = "\<lambda>(t, n). n > 1 \<or> length (matching_fields (required_fields (tts d)) t) > 1"
  let ?cnts = "field_counts_by_type attrs"
  have in_table: "(domain, d) \<in> set DOMAINS"
    using dom by (rule map_of_SomeD)
  have unfold: "infer_schema (Some domain) None cols = infer_names d ?cnts attrs"
    using dom cols by (simp add: infer_schema_def and_then_def)
  have le1: "\<not> Suc 0 < length (matching_fields (required_fields (tts d)) t)" for t
    using DOMAINS_one_required_per_type [OF in_table, of t] by simp
  have keys: "map fst ?cnts = first_seen (map attr_type attrs)"
    by (simp add: field_counts_by_type_def comp_def)
  have ok: "infer_schema (Some domain) None cols = Inr (map (inferred_name d) attrs)"
    if types: "distinct (map attr_type attrs)"
  proof -
    have "\<forall>(t, n) \<in> set ?cnts. n = 1"
      using types by (auto simp: field_counts_by_type_def count_list_distinct)
    then have good: "\<forall>(t, n) \<in> set ?cnts.
        \<not> n > 1 \<and> \<not> length (matching_fields (required_fields (tts d)) t) > 1"
      by (auto simp: le1)
    have dist: "distinct (map fst ?cnts)"
      by (simp add: keys)
    have all: "fst ` set ?cnts = set (map attr_type attrs)"
      using keys by (metis first_seen_set set_map)
    have "infer_names d ?cnts attrs =
            Inr (map (\<lambda>a. if attr_type a \<in> fst ` set ?cnts then inferred_name d a else a) attrs)"
      using good dist types by (rule infer_names_result)
    also have "map (\<lambda>a. if attr_type a \<in> fst ` set ?cnts then inferred_name d a else a) attrs =
               map (inferred_name d) attrs"
      unfolding all by (intro map_cong) auto
    finally show ?thesis
      by (simp add: unfold)
  qed
  have unnamed: "map (inferred_name d) attrs ! i = attrs ! i"
    if "i < length attrs"
       "matching_fields (required_fields (tts d)) (attr_type (attrs ! i)) = []
        \<and> matching_fields (optional_fields (tts d)) (attr_type (attrs ! i)) = []" for i
    using that by (simp add: inferred_name_def)
  have named: "map (inferred_name d) attrs ! i = (attrs ! i)\<lparr>attr_name := Name f\<rparr>"
    if "i < length attrs"
       "matching_fields (required_fields (tts d)) (attr_type (attrs ! i)) = [f]" for i f
    using that by (simp add: inferred_name_def)
  have shared: "\<exists>t. count_list (map attr_type attrs) t > 1
                \<and> infer_schema (Some domain) None cols = Inl (AmbiguousColumnMapping t)"
    if shared_type: "\<not> distinct (map attr_type attrs)"
  proof -
    obtain t where "t \<in> set (map attr_type attrs)" "count_list (map attr_type attrs) t > 1"
      using shared_type not_distinct_count by blast
    then have "(t, count_list (map attr_type attrs) t) \<in> set ?cnts" "?bad (t, count_list (map attr_type attrs) t)"
      by (auto simp: field_counts_by_type_def)
    then have "find ?bad ?cnts \<noteq> None"
      by (auto simp: find_None_iff)
    then obtain t' n' where found: "find ?bad ?cnts = Some (t', n')"
      by auto
    then have "(t', n') \<in> set ?cnts" "?bad (t', n')"
      by (auto dest: find_Some_member)
    then have "count_list (map attr_type attrs) t' > 1"
      by (auto simp: field_counts_by_type_def le1)
    with infer_names_fails [OF found, of attrs]
    show ?thesis
      by (auto simp: unfold)
  qed
  have retail: "infer_schema (Some ''RETAIL'') None [(Ix 0, Float64), (Ix 1, Float64)]
           = Inl (AmbiguousColumnMapping ''float'')"
    by (simp add: infer_schema_def and_then_def schematype_of_def field_counts_by_type_def
        first_seen_def DOMAINS_def)
  show ?thesis
    using ok unnamed named shared retail by blast
qed

theorem infer_schema_fails_iff_shared_type_witness:
  "infer_attributes 0
       [(Ix 0, Object RaisesParserError), (Ix 1, Object Converts), (Ix 2, Float64), (Ix 3, Int64)]
     = Inr [\<lparr>attr_name = Ix 0, attr_type = ''string''\<rparr>,
            \<lparr>attr_name = Ix 1, attr_type = ''timestamp''\<rparr>,
            \<lparr>attr_name = Ix 2, attr_type = ''float''\<rparr>,
            \<lparr>attr_name = Ix 3, attr_type = ''integer''\<rparr>]
   \<and> infer_schema (Some ''RETAIL'') None
        [(Ix 0, Object RaisesParserError), (Ix 1, Object Converts), (Ix 2, Float64), (Ix 3, Int64)]
       = Inr [\<lparr>attr_name = Name ''item_id'', attr_type = ''string''\<rparr>,
              \<lparr>attr_name = Name ''timestamp'', attr_type = ''timestamp''\<rparr>,
              \<lparr>attr_name = Name ''demand'', attr_type = ''float''\<rparr>,
              \<lparr>attr_name = Ix 3, attr_type = ''integer''\<rparr>]
   \<and> inferred_name retail_template \<lparr>attr_name = Ix 3, attr_type = ''integer''\<rparr>
       = \<lparr>attr_name = Ix 3, attr_type = ''integer''\<rparr>
   \<and> infer_attributes 0 [(Ix 0, Int64), (Ix 1, Int64)]
       = Inr [\<lparr>attr_name = Ix 0, attr_type = ''integer''\<rparr>,
              \<lparr>attr_name = Ix 1, attr_type = ''integer''\<rparr>]
   \<and> (\<exists>t. count_list [''integer'', ''integer''] t > 1
          \<and> infer_schema (Some ''RETAIL'') None [(Ix 0, Int64), (Ix 1, Int64)]
              = Inl (AmbiguousColumnMapping t))"
proof -
  have a: "infer_attributes 0
       [(Ix 0, Object RaisesParserError), (Ix 1, Object Converts), (Ix 2, Float64), (Ix 3, Int64)]
     = Inr [\<lparr>attr_name = Ix 0, attr_type = ''string''\<rparr>,
            \<lparr>attr_name = Ix 1, attr_type = ''timestamp''\<rparr>,
            \<lparr>attr_name = Ix 2, attr_type = ''float''\<rparr>,
            \<lparr>attr_name = Ix 3, attr_type = ''integer''\<rparr>]"
    by (simp add: schematype_of_def and_then_def)
  have b: "infer_attributes 0 [(Ix 0, Int64), (Ix 1, Int64)]
       = Inr [\<lparr>attr_name = Ix 0, attr_type = ''integer''\<rparr>,
              \<lparr>attr_name = Ix 1, attr_type = ''integer''\<rparr>]"
    by (simp add: schematype_of_def and_then_def)
  have names: "map (inferred_name retail_template)
          [\<lparr>attr_name = Ix 0, attr_type = ''string''\<rparr>,
           \<lparr>attr_name = Ix 1, attr_type = ''timestamp''\<rparr>,
           \<lparr>attr_name = Ix 2, attr_type = ''float''\<rparr>,
           \<lparr>attr_name = Ix 3, attr_type = ''integer''\<rparr>]
        = [\<lparr>attr_name = Name ''item_id'', attr_type = ''string''\<rparr>,
           \<lparr>attr_name = Name ''timestamp'', attr_type = ''timestamp''\<rparr>,
           \<lparr>attr_name = Name ''demand'', attr_type = ''float''\<rparr>,
           \<lparr>attr_name = Ix 3, attr_type = ''integer''\<rparr>]"
    by (simp add: inferred_name_def retail_template_def matching_fields_def attribute_def)
  have none: "matching_fields (required_fields (tts retail_template)) ''integer'' = []
              \<and> matching_fields (optional_fields (tts retail_template)) ''integer'' = []"
    by (simp add: retail_template_def matching_fields_def attribute_def)
  show ?thesis
    using a b names none
      infer_schema_fails_iff_shared_type [OF retail_template_in_DOMAINS a]
      infer_schema_fails_iff_shared_type [OF retail_template_in_DOMAINS b]
    by simp
qed

section \<open>Chunks\<close>

lemma concat_chunks_of: "0 < n \<Longrightarrow> concat (chunks_of n xs) = xs"
  by (induction n xs rule: chunks_of.induct) simp_all

lemma concat_tts_chunker: "0 < n \<Longrightarrow> concat (tts_chunker n rows) = rows"
  by (cases rows) (simp_all add: tts_chunker_def concat_chunks_of del: chunks_of.simps)

lemma tts_chunker_not_Nil: "0 < n \<Longrightarrow> tts_chunker n rows \<noteq> []"
  by (cases rows) (simp_all add: tts_chunker_def)

section \<open>Series\<close>

lemma and_then_Inr_iff:
  "(and_then m f = Inr y) = (\<exists>x. m = Inr x \<and> f x = Inr y)"
  by (cases m) (simp_all add: and_then_def)

lemma value_counts_keys: "map fst (value_counts xs) = first_seen xs"
  by (simp add: value_counts_def comp_def)

lemma series_sum_value_counts: "series_sum (value_counts xs) = length xs"
proof -
  have "series_sum (value_counts xs) = sum_list (map (count_list xs) (first_seen xs))"
    by (simp add: series_sum_def value_counts_def comp_def)
  also have "\<dots> = sum (count_list xs) (set (first_seen xs))"
    by (simp add: sum_list_distinct_conv_sum_set)
  also have "\<dots> = length xs"
    by (simp add: sum_count_set)
  finally show ?thesis .
qed

lemma series_iadd_keys: "map fst (series_iadd s g) = map fst s"
  by (simp add: series_iadd_def comp_def case_prod_unfold)

lemma series_sum_looked_up:
  assumes "distinct (map fst g)"
  shows "sum_list (map (looked_up g) (map fst g)) = series_sum g"
proof -
  have "map_of g (fst p) = Some (snd p)" if "p \<in> set g" for p
    using assms that by (cases p) simp
  then have "map (looked_up g) (map fst g) = map (\<lambda>(k, v). case v of None \<Rightarrow> 0 | Some n \<Rightarrow> n) g"
    by (auto simp: looked_up_def split: option.splits)
  then show ?thesis
    by (simp only: series_sum_def)
qed

lemma looked_up_outside: "k \<notin> fst ` set g \<Longrightarrow> looked_up g k = 0"
  by (simp add: looked_up_def map_of_eq_None_iff [THEN iffD2])

lemma sum_looked_up_le:
  assumes ks: "distinct ks" and g: "distinct (map fst g)"
  shows "sum_list (map (looked_up g) ks) \<le> series_sum g"
proof -
  have "sum_list (map (looked_up g) ks) = sum (looked_up g) (set ks)"
    using ks by (simp add: sum_list_distinct_conv_sum_set)
  also have "\<dots> \<le> sum (looked_up g) (set ks \<union> fst ` set g)"
    by (rule sum_mono2) auto
  also have "\<dots> = sum (looked_up g) (fst ` set g)"
    by (rule sum.mono_neutral_right) (auto simp: looked_up_outside)
  also have "\<dots> = sum (looked_up g) (set (map fst g))"
    by simp
  also have "\<dots> = sum_list (map (looked_up g) (map fst g))"
    using g by (simp only: sum_list_distinct_conv_sum_set)
  also have "\<dots> = series_sum g"
    using g by (rule series_sum_looked_up)
  finally show ?thesis .
qed

lemma series_sum_iadd_le:
  assumes "distinct (map fst s)" and "distinct (map fst g)"
  shows "series_sum (series_iadd s g) \<le> series_sum s + series_sum g"
proof -
  have "series_sum (series_iadd s g)
          \<le> sum_list (map (\<lambda>p. (case snd p of None \<Rightarrow> 0 | Some n \<Rightarrow> n) + looked_up g (fst p)) s)"
    unfolding series_sum_def series_iadd_def map_map
    by (rule sum_list_mono) (auto simp: looked_up_def split: option.splits)
  also have "\<dots> = series_sum s + sum_list (map (looked_up g) (map fst s))"
    by (simp add: series_sum_def sum_list_addf case_prod_unfold comp_def)
  also have "\<dots> \<le> series_sum s + series_sum g"
    using sum_looked_up_le [OF assms] by simp
  finally show ?thesis .
qed


section \<open>The statistics of a chunk\<close>

lemma those_Some_map: "those xs = Some ys \<Longrightarrow> xs = map Some ys"
  by (induction xs arbitrary: ys) (auto split: option.splits)

lemma those_None_iff: "(those xs = None) = (None \<in> set xs)"
  by (induction xs) (auto split: option.splits)

lemma length_map_filter: "length (List.map_filter f xs) = length (filter (\<lambda>x. f x \<noteq> None) xs)"
  by (induction xs) (auto simp: List.map_filter_simps split: option.splits)

lemma groupby_size_Inr:
  assumes "groupby_size names dims tts_chunk = Inr g"
  shows "\<exists>idxs. those (map (col_index names) dims) = Some idxs
           \<and> g = value_counts (List.map_filter (dimension_key idxs) tts_chunk)"
  using assms by (auto simp: groupby_size_def split: list.splits option.splits)

lemma complete_row_iff: "complete_row idxs = (\<lambda>r. \<exists>k. dimension_key idxs r = Some k)"
  by (auto simp: fun_eq_iff complete_row_def split: option.splits)

lemma series_sum_groupby_size:
  assumes "groupby_size names dims tts_chunk = Inr g"
    and "those (map (col_index names) dims) = Some idxs"
  shows "series_sum g = length (filter (complete_row idxs) tts_chunk)"
    and "distinct (map fst g)"
  using groupby_size_Inr [OF assms(1)] assms(2)
  by (auto simp: series_sum_value_counts length_map_filter complete_row_iff value_counts_keys)

lemma update_statistics_Inr:
  assumes "update_statistics r names st tts_chunk = Inr st'"
  shows "total_records st' = total_records st + length tts_chunk"
    and "\<exists>g. groupby_size names (dimension_fields r) tts_chunk = Inr g
            \<and> unique_dimension_combos st' =
                (case unique_dimension_combos st of
                   None \<Rightarrow> Some g
                 | Some combos \<Rightarrow> Some (series_iadd combos g))"
  using assms
  by (auto simp: update_statistics_def and_then_Inr_iff Let_def)


text \<open>
  The bound the joint table keeps: its labels are distinct and its values sum to at
  most \<open>n\<close>.
\<close>

lemma combos_step:
  assumes upd: "update_statistics r names st tts_chunk = Inr st'"
    and idxs: "those (map (col_index names) (dimension_fields r)) = Some idxs"
    and inv: "case unique_dimension_combos st of
                None \<Rightarrow> True
              | Some s \<Rightarrow> distinct (map fst s) \<and> series_sum s \<le> n"
  shows "\<exists>s'. unique_dimension_combos st' = Some s' \<and> distinct (map fst s')
             \<and> series_sum s' \<le> n + length (filter (complete_row idxs) tts_chunk)"
proof -
  obtain g where g: "groupby_size names (dimension_fields r) tts_chunk = Inr g"
    and st': "unique_dimension_combos st' =
                (case unique_dimension_combos st of
                   None \<Rightarrow> Some g
                 | Some combos \<Rightarrow> Some (series_iadd combos g))"
    using update_statistics_Inr(2) [OF upd] by blast
  have sum_g: "series_sum g = length (filter (complete_row idxs) tts_chunk)"
    and dist_g: "distinct (map fst g)"
    using series_sum_groupby_size [OF g idxs] by simp_all
  show ?thesis
  proof (cases "unique_dimension_combos st")
    case None
    then show ?thesis
      using st' sum_g dist_g by simp
  next
    case (Some s)
    with inv have dist_s: "distinct (map fst s)" and sum_s: "series_sum s \<le> n"
      by simp_all
    have "series_sum (series_iadd s g) \<le> series_sum s + series_sum g"
      using dist_s dist_g by (rule series_sum_iadd_le)
    then have "series_sum (series_iadd s g) \<le> n + length (filter (complete_row idxs) tts_chunk)"
      using sum_s sum_g by simp
    then show ?thesis
      using Some st' dist_s by (simp add: series_iadd_keys)
  qed
qed

lemma aggregate_total_records:
  "aggregate r names st chunks = Inr st' \<Longrightarrow>
     total_records st' = total_records st + length (concat chunks)"
proof (induction chunks arbitrary: st)
  case Nil
  then show ?case by simp
next
  case (Cons c chunks)
  from Cons.prems obtain st1 where
    upd: "update_statistics r names st c = Inr st1" and
    rest: "aggregate r names st1 chunks = Inr st'"
    by (auto simp: and_then_Inr_iff)
  show ?case
    using Cons.IH [OF rest] update_statistics_Inr(1) [OF upd] by simp
qed

lemma aggregate_combos:
  assumes "aggregate r names st chunks = Inr st'"
    and "those (map (col_index names) (dimension_fields r)) = Some idxs"
    and "\<exists>s. unique_dimension_combos st = Some s \<and> distinct (map fst s) \<and> series_sum s \<le> n"
  shows "\<exists>s'. unique_dimension_combos st' = Some s' \<and> distinct (map fst s')
             \<and> series_sum s' \<le> n + length (filter (complete_row idxs) (concat chunks))"
  using assms
proof (induction chunks arbitrary: st n)
  case Nil
  then show ?case by simp
next
  case (Cons c chunks)
  from Cons.prems(1) obtain st1 where
    upd: "update_statistics r names st c = Inr st1" and
    rest: "aggregate r names st1 chunks = Inr st'"
    by (auto simp: and_then_Inr_iff)
  have inv: "case unique_dimension_combos st of
                None \<Rightarrow> True
              | Some s \<Rightarrow> distinct (map fst s) \<and> series_sum s \<le> n"
    using Cons.prems(3) by auto
  from combos_step [OF upd Cons.prems(2) inv]
  have "\<exists>s. unique_dimension_combos st1 = Some s \<and> distinct (map fst s)
             \<and> series_sum s \<le> n + length (filter (complete_row idxs) c)" .
  from Cons.IH [OF rest Cons.prems(2) this]
  show ?case by (simp add: add.assoc)
qed

lemma aggregate_combos_initial:
  assumes agg: "aggregate r names initial_stats chunks = Inr st'"
    and nonempty: "chunks \<noteq> []"
  shows "\<exists>idxs s'. those (map (col_index names) (dimension_fields r)) = Some idxs
           \<and> unique_dimension_combos st' = Some s'
           \<and> series_sum s' \<le> length (filter (complete_row idxs) (concat chunks))"
proof -
  obtain c rest where chunks: "chunks = c # rest"
    using nonempty by (cases chunks) auto
  from agg obtain st1 where
    upd: "update_statistics r names initial_stats c = Inr st1" and
    rest: "aggregate r names st1 rest = Inr st'"
    by (auto simp: chunks and_then_Inr_iff)
  obtain g where g: "groupby_size names (dimension_fields r) c = Inr g"
    using update_statistics_Inr(2) [OF upd] by blast
  obtain idxs where idxs: "those (map (col_index names) (dimension_fields r)) = Some idxs"
    using groupby_size_Inr [OF g] by blast
  have "case unique_dimension_combos initial_stats of
                None \<Rightarrow> True
              | Some s \<Rightarrow> distinct (map fst s) \<and> series_sum s \<le> 0"
    by (simp add: initial_stats_def)
  from combos_step [OF upd idxs this]
  have "\<exists>s. unique_dimension_combos st1 = Some s \<and> distinct (map fst s)
             \<and> series_sum s \<le> 0 + length (filter (complete_row idxs) c)" .
  from aggregate_combos [OF rest idxs this]
  show ?thesis
    using idxs by (auto simp: chunks)
qed


section \<open>The loops over chunks and files\<close>

lemma process_chunk_Inr:
  assumes "process_chunk domain header_columns file (sch, ro, st) tts_chunk = Inr (sch', ro', st')"
  shows "\<exists>a r. sch' = Some a \<and> ro' = Some r
           \<and> update_statistics r (map attr_name a) st tts_chunk = Inr st'
           \<and> (sch \<noteq> None \<longrightarrow> sch = Some a \<and> ro = Some r)"
  using assms
  by (cases sch; cases ro)
     (auto simp: process_chunk_def and_then_Inr_iff split: option.splits)

lemma process_chunks_fixed:
  "process_chunks domain header_columns file (Some a, Some r, st) chunks = Inr (sch', ro', st')
   \<Longrightarrow> sch' = Some a \<and> ro' = Some r \<and> aggregate r (map attr_name a) st chunks = Inr st'"
proof (induction chunks arbitrary: st)
  case Nil
  then show ?case by simp
next
  case (Cons c chunks)
  from Cons.prems obtain s1 r1 st1 where
    step: "process_chunk domain header_columns file (Some a, Some r, st) c = Inr (s1, r1, st1)" and
    rest: "process_chunks domain header_columns file (s1, r1, st1) chunks = Inr (sch', ro', st')"
    by (auto simp: and_then_Inr_iff)
  from process_chunk_Inr [OF step]
  have s1: "s1 = Some a" and r1: "r1 = Some r"
    and upd: "update_statistics r (map attr_name a) st c = Inr st1"
    by auto
  from Cons.IH [OF rest [unfolded s1 r1]] upd
  show ?case by (simp add: and_then_def)
qed

lemma process_chunks_Inr:
  assumes run: "process_chunks domain header_columns file (sch, ro, st) chunks = Inr (sch', ro', st')"
    and nonempty: "chunks \<noteq> []"
  shows "\<exists>a r. sch' = Some a \<and> ro' = Some r
           \<and> aggregate r (map attr_name a) st chunks = Inr st'
           \<and> (sch \<noteq> None \<longrightarrow> sch = Some a \<and> ro = Some r)"
proof -
  obtain c rest where chunks: "chunks = c # rest"
    using nonempty by (cases chunks) auto
  from run obtain s1 r1 st1 where
    step: "process_chunk domain header_columns file (sch, ro, st) c = Inr (s1, r1, st1)" and
    rest: "process_chunks domain header_columns file (s1, r1, st1) rest = Inr (sch', ro', st')"
    by (auto simp: chunks and_then_Inr_iff)
  from process_chunk_Inr [OF step] obtain a r where
    s1: "s1 = Some a" and r1: "r1 = Some r"
    and upd: "update_statistics r (map attr_name a) st c = Inr st1"
    and same: "sch \<noteq> None \<longrightarrow> sch = Some a \<and> ro = Some r"
    by blast
  from process_chunks_fixed [OF rest [unfolded s1 r1]] upd same
  show ?thesis by (simp add: chunks and_then_def)
qed

lemma process_file_Inr:
  assumes run: "process_file chunksize domain (sch, ro) file = Inr (carried', st)"
    and pos: "0 < chunksize"
  shows "\<exists>a r. carried' = (Some a, Some r)
           \<and> aggregate r (map attr_name a) initial_stats
                 (tts_chunker chunksize (frame_rows file)) = Inr st
           \<and> (sch \<noteq> None \<longrightarrow> sch = Some a \<and> ro = Some r)"
proof -
  from run obtain sch' ro' where
    loop: "process_chunks domain (fst (projr (sniff_csv_file (csv_rows file)))) file
             (sch, ro, initial_stats) (tts_chunker chunksize (frame_rows file)) = Inr (sch', ro', st)"
    and carried': "carried' = (sch', ro')"
    by (auto simp: process_file_def and_then_Inr_iff split: option.splits)
  from process_chunks_Inr [OF loop tts_chunker_not_Nil [OF pos]] carried'
  show ?thesis by simp
qed




section \<open>Statistics across chunks and files\<close>







section \<open>Chunk size\<close>

text \<open>
  C3. The claim: chunks of size 1, of size 10,000 or one single chunk give the same
  final aggregation state. For the file with one row for item \<^verbatim>\<open>a\<close> and one for item
  \<^verbatim>\<open>b\<close>, chunks of size 1 leave the tables with the single label \<^verbatim>\<open>a\<close> holding NaN,
  where one chunk gives \<^verbatim>\<open>a\<close> and \<^verbatim>\<open>b\<close> with count 1 each: \<^verbatim>\<open>+=\<close> on Series of
  different labels does not add up counts.
\<close>

theorem chunk_size_changes_dimension_counts:
  "tts_chunker 1 (frame_rows file_ab) = [[row_a], [row_b]]
   \<and> tts_chunker CHUNKSIZE (frame_rows file_ab) = [[row_a, row_b]]
   \<and> diagnose_chunked 1 ''ab.csv'' (RegularFile file_ab) (Some ''RETAIL'') (Some retail_schema) =
       Inr [\<lparr>global_tts_start = Some (Some ''2024-01-01''),
              global_tts_end = Some (Some ''2024-01-02''),
              total_records = 2, total_records_nonulls = 2, num_nulls_by_field = Some [0, 0, 0],
              unique_dimension_vals = [(Name ''item_id'', [(Some ''a'', None)])],
              unique_dimension_combos = Some [([''a''], None)]\<rparr>]
   \<and> diagnose_chunked CHUNKSIZE ''ab.csv'' (RegularFile file_ab) (Some ''RETAIL'') (Some retail_schema) =
       Inr [\<lparr>global_tts_start = Some (Some ''2024-01-01''),
              global_tts_end = Some (Some ''2024-01-02''),
              total_records = 2, total_records_nonulls = 2, num_nulls_by_field = Some [0, 0, 0],
              unique_dimension_vals = [(Name ''item_id'', [(Some ''a'', Some 1), (Some ''b'', Some 1)])],
              unique_dimension_combos = Some [([''a''], Some 1), ([''b''], Some 1)]\<rparr>]"
  by code_simp

section \<open>Rows with a missing dimension value\<close>

lemma those_index_member:
  assumes "those (map (col_index names) dims) = Some idxs"
    and "f \<in> set dims" and "col_index names f = Some i"
  shows "i \<in> set idxs"
proof -
  have "map (col_index names) dims = map Some idxs"
    using assms(1) by (rule those_Some_map)
  moreover have "Some i \<in> set (map (col_index names) dims)"
    using assms(2,3) by force
  ultimately show ?thesis by auto
qed

lemma incomplete_row:
  assumes "those (map (col_index names) dims) = Some idxs"
    and "f \<in> set dims" and "col_index names f = Some i" and "cell_at row i = None"
  shows "\<not> complete_row idxs row"
proof -
  have "i \<in> set idxs"
    using assms(1-3) by (rule those_index_member)
  then have "None \<in> set (map (cell_at row) idxs)"
    using assms(4) by force
  then have "dimension_key idxs row = None"
    by (simp only: dimension_key_def those_None_iff)
  then show ?thesis
    by (simp add: complete_row_def)
qed

text \<open>
  The joint table of a file never counts a row with a missing dimension value: when
  the file holds such a row, the entries of \<open>unique_dimension_combos\<close> at reporting time
  sum to less than \<open>total_records\<close>, whatever the chunk size.
\<close>

lemma combos_sum_less_than_total_records:
  assumes pos: "0 < chunksize"
    and run: "process_file chunksize domain carried file = Inr ((Some attrs, Some r), st)"
    and row: "row \<in> set (frame_rows file)"
    and dim: "f \<in> set (dimension_fields r)"
    and col: "col_index (map attr_name attrs) f = Some i"
    and null: "cell_at row i = None"
  shows "\<exists>combos. unique_dimension_combos st = Some combos
            \<and> series_sum combos < total_records st"
proof -
  obtain sch ro where carried: "carried = (sch, ro)" by (cases carried)
  from process_file_Inr [OF run [unfolded carried] pos]
  have agg: "aggregate r (map attr_name attrs) initial_stats
               (tts_chunker chunksize (frame_rows file)) = Inr st"
    by simp
  from aggregate_combos_initial [OF agg tts_chunker_not_Nil [OF pos]]
  obtain idxs combos where
    idxs: "those (map (col_index (map attr_name attrs)) (dimension_fields r)) = Some idxs"
    and combos: "unique_dimension_combos st = Some combos"
    and le: "series_sum combos \<le> length (filter (complete_row idxs) (frame_rows file))"
    using pos by (auto simp: concat_tts_chunker)
  have "\<not> complete_row idxs row"
    using idxs dim col null by (rule incomplete_row)
  with row have "length (filter (complete_row idxs) (frame_rows file)) < length (frame_rows file)"
    by (rule length_filter_less)
  moreover have "total_records st = length (frame_rows file)"
    using aggregate_total_records [OF agg] pos
    by (simp add: concat_tts_chunker initial_stats_def)
  ultimately show ?thesis
    using combos le by simp
qed

text \<open>
  C10. The claim: for every chunk, a row with a missing value in a dimension field
  contributes to the value-frequency table of each dimension, the missing value
  counting as a value of its own, and to no entry of the joint table. The file with
  one row for item \<^verbatim>\<open>a\<close> and a second row with no item shows both halves when it is
  read as one chunk: \<open>unique_dimension_vals\<close> holds \<^verbatim>\<open>a\<close> and NaN with count 1 each, and
  \<open>unique_dimension_combos\<close> holds \<^verbatim>\<open>a\<close> only. Read in chunks of size 1, the row with no
  item is in the second chunk, and after line 514 the table of \<^verbatim>\<open>item_id\<close> has the single
  label \<^verbatim>\<open>a\<close>, holding NaN: the row has contributed to no entry of it. The entries of
  the joint table sum to less than \<open>total_records\<close> in both runs.
\<close>

theorem null_row_in_later_chunk_leaves_no_entry:
  "tts_chunker 1 (frame_rows file_with_null) = [[row_a], [row_no_item]]
   \<and> tts_chunker CHUNKSIZE (frame_rows file_with_null) = [[row_a, row_no_item]]
   \<and> diagnose_chunked 1 ''n.csv'' (RegularFile file_with_null) (Some ''RETAIL'') (Some retail_schema) =
       Inr [\<lparr>global_tts_start = Some (Some ''2024-01-01''),
              global_tts_end = Some (Some ''2024-01-02''),
              total_records = 2, total_records_nonulls = 1, num_nulls_by_field = Some [1, 0, 0],
              unique_dimension_vals = [(Name ''item_id'', [(Some ''a'', None)])],
              unique_dimension_combos = Some [([''a''], None)]\<rparr>]
   \<and> diagnose_chunked CHUNKSIZE ''n.csv'' (RegularFile file_with_null) (Some ''RETAIL'') (Some retail_schema) =
       Inr [\<lparr>global_tts_start = Some (Some ''2024-01-01''),
              global_tts_end = Some (Some ''2024-01-02''),
              total_records = 2, total_records_nonulls = 1, num_nulls_by_field = Some [1, 0, 0],
              unique_dimension_vals = [(Name ''item_id'', [(Some ''a'', Some 1), (None, Some 1)])],
              unique_dimension_combos = Some [([''a''], Some 1)]\<rparr>]"
  by code_simp

end
